theory Spec2Isabelle
  imports Main "HOL-Library.Word" "HOL-Library.Sublist"
begin

unbundle bit_operations_syntax

section \<open>Bit-bang I2C master over the FTDI MPSSE engine (i2c.c)\<close>

text \<open>
  A shallow embedding of \<^verbatim>\<open>i2c.c\<close>. The C globals (\<^verbatim>\<open>outputBuffer\<close>,
  \<^verbatim>\<open>outputSize\<close>, \<^verbatim>\<open>inputBuffer\<close>, \<^verbatim>\<open>inputRead\<close>, \<^verbatim>\<open>ftStatus\<close>) are the fields of
  a state record that every function takes and returns. The D2XX driver and the chip
  behind it are the environment: a device record that fixes, for every driver call, the
  status it returns and, for the k-th \<^verbatim>\<open>FT_Read\<close>, the bytes it delivers. The
  payload of every \<^verbatim>\<open>FT_Write\<close> is logged, whatever its status: the log is the byte
  stream the program hands to the driver, one entry for each call. Diagnostics on stderr
  (\<^verbatim>\<open>verbose\<close>) are not modelled, but for the report of the bus scan.
\<close>

subsection \<open>Constants and macros\<close>

type_synonym byte = "8 word"
type_synonym ft_status = "32 word"

text \<open>\<^verbatim>\<open>FT_OK\<close> comes from the vendor header \<^verbatim>\<open>ftd2xx.h\<close>, which is not part of the
  repository; it is the zero status (\<^verbatim>\<open>execute\<close> itself returns a literal 0 for success).\<close>

definition FT_OK :: ft_status where
  "FT_OK = 0"

text \<open>The macros work on C \<^verbatim>\<open>int\<close> values (integer promotion); the result is cut to
  an \<^verbatim>\<open>unsigned char\<close> only when it is passed to \<^verbatim>\<open>i2c_send_bk\<close>.\<close>

definition READ :: "int \<Rightarrow> int" where
  "READ addr = (push_bit 1 addr) OR 1"

definition WRITE :: "int \<Rightarrow> int" where
  "WRITE addr = (push_bit 1 addr) OR 0"

definition SLAVE_NAK_ADDR :: int where
  "SLAVE_NAK_ADDR = - 2"

definition SLAVE_NAK_DATA :: int where
  "SLAVE_NAK_DATA = - 3"

definition SCL :: byte where
  "SCL = push_bit 0 1"

definition SDA_OUT :: byte where
  "SDA_OUT = push_bit 1 1"

definition SDA_IN :: byte where
  "SDA_IN = push_bit 2 1"

definition MSB_FALLING_EDGE_CLOCK_BYTE_OUT :: byte where
  "MSB_FALLING_EDGE_CLOCK_BYTE_OUT = 0x11"

definition MSB_FALLING_EDGE_CLOCK_BIT_OUT :: byte where
  "MSB_FALLING_EDGE_CLOCK_BIT_OUT = 0x13"

definition MSB_FALLING_EDGE_CLOCK_BYTE_IN :: byte where
  "MSB_FALLING_EDGE_CLOCK_BYTE_IN = 0x20"

definition MSB_RISING_EDGE_CLOCK_BIT_IN :: byte where
  "MSB_RISING_EDGE_CLOCK_BIT_IN = 0x22"

definition SET_BITS_LOW_BYTE :: byte where
  "SET_BITS_LOW_BYTE = 0x80"

definition SEND_IMMEDIATE :: byte where
  "SEND_IMMEDIATE = 0x87"

definition DISABLE_LOOPBACK :: byte where
  "DISABLE_LOOPBACK = 0x85"

definition SET_CLK_DIV :: byte where
  "SET_CLK_DIV = 0x86"

definition DISABLE_CLK_DIV_5 :: byte where
  "DISABLE_CLK_DIV_5 = 0x8A"

definition ENABLE_3_PHASE_CLK :: byte where
  "ENABLE_3_PHASE_CLK = 0x8C"

definition DISABLE_ADAPTIVE_CLK :: byte where
  "DISABLE_ADAPTIVE_CLK = 0x97"

definition OPEN_DRAIN :: byte where
  "OPEN_DRAIN = 0x9E"

text \<open>\<^verbatim>\<open>sizeof(outputBuffer)\<close> for \<^verbatim>\<open>char outputBuffer[1024]\<close>.\<close>

definition sizeof_outputBuffer :: nat where
  "sizeof_outputBuffer = 1024"

subsection \<open>The environment and the program state\<close>

text \<open>
  The device fixes what each driver call returns. \<open>write_status k\<close> is the status of
  the k-th \<^verbatim>\<open>FT_Write\<close> and \<open>read_reply k\<close> the status and the bytes waiting at the
  k-th \<^verbatim>\<open>FT_Read\<close> (counted from 0 over the life of the handle); the other fields are
  the statuses of the set-up calls of \<^verbatim>\<open>ftdi_configure_i2c\<close>, and the queue length that
  \<^verbatim>\<open>FT_GetQueueStatus\<close> stores in \<^verbatim>\<open>inputSize\<close>.
\<close>

record ftdi_device =
  open_status :: ft_status
  reset_status :: ft_status
  queue_status :: ft_status
  queue_size :: nat
  usb_parameters_status :: ft_status
  chars_status :: ft_status
  timeouts_status :: ft_status
  latency_status :: ft_status
  bitmode_reset_status :: ft_status
  bitmode_mpsse_status :: ft_status
  write_status :: "nat \<Rightarrow> ft_status"
  read_reply :: "nat \<Rightarrow> ft_status \<times> byte list"

text \<open>
  \<open>outputBuffer\<close> holds the first \<^verbatim>\<open>outputSize\<close> bytes of the C array, so
  \<^verbatim>\<open>outputSize\<close> is its length. \<open>inputBuffer\<close> is the C array as a list; a read
  overwrites its front. (A read that stores more than the 1024 bytes of the C array
  overruns it in C; the list just grows, and nothing below depends on such a read.)
  \<open>sent\<close> logs the payload of every \<^verbatim>\<open>FT_Write\<close>, \<open>nreads\<close> counts the
  \<^verbatim>\<open>FT_Read\<close> calls, \<open>dumped\<close> collects the bytes \<^verbatim>\<open>dump_hex\<close> prints, and
  \<open>reported\<close> the addresses of the lines \<^verbatim>\<open>Slave ACKed address %02hx\<close> that the
  bus scan of \<^verbatim>\<open>main\<close> prints.
\<close>

record i2c_state =
  ftStatus :: ft_status
  inputBuffer :: "byte list"
  outputBuffer :: "byte list"
  inputRead :: nat
  sent :: "byte list list"
  nreads :: nat
  dumped :: "byte list"
  reported :: "byte list"

definition FT_Write :: "ftdi_device \<Rightarrow> byte list \<Rightarrow> i2c_state \<Rightarrow> ft_status \<times> i2c_state" where
  "FT_Write dev buf s = (write_status dev (length (sent s)), s\<lparr>sent := sent s @ [buf]\<rparr>)"

definition FT_Read :: "ftdi_device \<Rightarrow> nat \<Rightarrow> i2c_state \<Rightarrow> ft_status \<times> i2c_state" where
  "FT_Read dev n s =
     (let (st, data) = read_reply dev (nreads s);
          got = take n data
      in (st, s\<lparr>inputBuffer := got @ drop (length got) (inputBuffer s),
                 inputRead := length got,
                 nreads := Suc (nreads s)\<rparr>))"

subsection \<open>The command buffer\<close>

definition append :: "byte \<Rightarrow> i2c_state \<Rightarrow> int \<times> i2c_state" where
  "append data s =
     (if length (outputBuffer s) \<ge> sizeof_outputBuffer - 1 then (- 1, s)
      else (0, s\<lparr>outputBuffer := outputBuffer s @ [data]\<rparr>))"

text \<open>No caller looks at the result of \<^verbatim>\<open>append\<close>: \<open>append'\<close> is the call as a
  statement.\<close>

definition append' :: "byte \<Rightarrow> i2c_state \<Rightarrow> i2c_state" where
  "append' data s = snd (append data s)"

definition flush :: "i2c_state \<Rightarrow> i2c_state" where
  "flush s = s\<lparr>outputBuffer := []\<rparr>"

definition execute :: "ftdi_device \<Rightarrow> i2c_state \<Rightarrow> ft_status \<times> i2c_state" where
  "execute dev s =
     (if length (outputBuffer s) = 0 then (0, s)
      else (let (st, s1) = FT_Write dev (outputBuffer s) s;
                s2 = s1\<lparr>ftStatus := st\<rparr>;
                s3 = s2\<lparr>outputBuffer := []\<rparr>
            in (ftStatus s3, s3)))"

definition execute' :: "ftdi_device \<Rightarrow> i2c_state \<Rightarrow> i2c_state" where
  "execute' dev s = snd (execute dev s)"

text \<open>The live branch of \<^verbatim>\<open>set_bits\<close> (the \<^verbatim>\<open>#else\<close> of \<^verbatim>\<open>#if 0\<close>). The C function
  has no return statement and no caller uses its value.\<close>

definition set_bits :: "byte \<Rightarrow> i2c_state \<Rightarrow> i2c_state" where
  "set_bits data s =
     (let s1 = append' SET_BITS_LOW_BYTE s;
          s2 = append' data s1;
          s3 = append' (SDA_OUT OR SCL) s2
      in s3)"

subsection \<open>Start, stop, sending a byte, reading bytes\<close>

definition i2c_start_bk :: "i2c_state \<Rightarrow> i2c_state" where
  "i2c_start_bk s =
     (let repeat = 40;
          s1 = (set_bits (SDA_OUT OR SCL) ^^ repeat) s;
          s2 = (set_bits SCL ^^ repeat) s1;
          s3 = (set_bits 0 ^^ repeat) s2
      in s3)"

definition i2c_stop_bk :: "i2c_state \<Rightarrow> i2c_state" where
  "i2c_stop_bk s =
     (let repeat = 40;
          s1 = (set_bits 0 ^^ repeat) s;
          s2 = (set_bits SCL ^^ repeat) s1;
          s3 = (set_bits (SDA_OUT OR SCL) ^^ repeat) s2
      in s3)"

definition i2c_send_bk :: "ftdi_device \<Rightarrow> byte \<Rightarrow> i2c_state \<Rightarrow> int \<times> i2c_state" where
  "i2c_send_bk dev data s =
     (let s1 = append' MSB_FALLING_EDGE_CLOCK_BYTE_OUT s;
          s2 = append' 0x00 s1;
          s3 = append' 0x00 s2;
          s4 = append' data s3;
          s5 = set_bits SDA_OUT s4;
          s6 = append' MSB_RISING_EDGE_CLOCK_BIT_IN s5;
          s7 = append' 0x00 s6;
          s8 = append' SEND_IMMEDIATE s7;
          s9 = execute' dev s8;
          (st, s10) = FT_Read dev 1 s9;
          s11 = s10\<lparr>ftStatus := st\<rparr>
      in if ftStatus s11 \<noteq> FT_OK \<or> inputRead s11 = 0 then (- 2, s11)
         else if (inputBuffer s11 ! 0) AND 0x01 \<noteq> 0x00 then (- 1, s11)
         else (0, execute' dev (set_bits SDA_OUT s11)))"

text \<open>The \<^verbatim>\<open>for\<close> loop of \<^verbatim>\<open>read_bytes\<close>, from the counter \<open>i\<close> on.\<close>

function read_bytes_loop :: "int \<Rightarrow> int \<Rightarrow> i2c_state \<Rightarrow> i2c_state" where
  "read_bytes_loop i nbytes s =
     (if i < nbytes then
        (let s1 = append' MSB_FALLING_EDGE_CLOCK_BYTE_IN s;
             s2 = append' 0x00 s1;
             s3 = append' 0x00 s2;
             s4 = append' MSB_FALLING_EDGE_CLOCK_BIT_OUT s3;
             s5 = append' 0x00 s4;
             s6 = (if i = nbytes - 1 then append' 0x80 s5 else append' 0x00 s5)
         in read_bytes_loop (i + 1) nbytes s6)
      else s)"
  by pat_completeness auto
termination
  by (relation "measure (\<lambda>(i, nbytes, s). nat (nbytes - i))") auto

definition read_bytes :: "ftdi_device \<Rightarrow> int \<Rightarrow> i2c_state \<Rightarrow> int \<times> i2c_state" where
  "read_bytes dev nbytes s =
     (if nbytes \<le> 0 then (- 1, s)
      else (let s1 = read_bytes_loop 0 nbytes s;
                s2 = append' SEND_IMMEDIATE s1;
                s3 = execute' dev s2;
                (st, s4) = FT_Read dev (nat nbytes) s3;
                s5 = s4\<lparr>ftStatus := st\<rparr>
            in (0, s5)))"

definition dump_hex :: "byte list \<Rightarrow> nat \<Rightarrow> i2c_state \<Rightarrow> i2c_state" where
  "dump_hex buf len s = s\<lparr>dumped := dumped s @ take len buf\<rparr>"

subsection \<open>Device set-up\<close>

text \<open>The first statement of \<^verbatim>\<open>ftdi_configure_i2c\<close>: the divisor for the requested
  speed, an \<^verbatim>\<open>unsigned short\<close>.\<close>

definition dwClockDivisor :: "int \<Rightarrow> 16 word" where
  "dwClockDivisor speed_khz = (if speed_khz = 400 then 0x004A else 0x012B)"

definition ftdi_configure_i2c :: "ftdi_device \<Rightarrow> int \<Rightarrow> i2c_state \<Rightarrow> int \<times> i2c_state" where
  "ftdi_configure_i2c dev speed_khz s =
     (let s0 = s\<lparr>ftStatus := open_status dev\<rparr>
      in if ftStatus s0 \<noteq> FT_OK then (- 1, s0)
         else
          (let s1 = s0\<lparr>ftStatus := reset_status dev\<rparr>;
               s2 = s1\<lparr>ftStatus := ftStatus s1 OR queue_status dev\<rparr>;
               inputSize = queue_size dev;
               s3 = (if ftStatus s2 = FT_OK \<and> inputSize > 0
                     then snd (FT_Read dev inputSize s2) else s2);
               s4 = s3\<lparr>ftStatus := ftStatus s3 OR usb_parameters_status dev\<rparr>;
               s5 = s4\<lparr>ftStatus := ftStatus s4 OR chars_status dev\<rparr>;
               s6 = s5\<lparr>ftStatus := ftStatus s5 OR timeouts_status dev\<rparr>;
               s7 = s6\<lparr>ftStatus := ftStatus s6 OR latency_status dev\<rparr>;
               s8 = s7\<lparr>ftStatus := ftStatus s7 OR bitmode_reset_status dev\<rparr>;
               s9 = s8\<lparr>ftStatus := ftStatus s8 OR bitmode_mpsse_status dev\<rparr>
           in if ftStatus s9 \<noteq> FT_OK then (- 1, s9)
              else
               (let c1 = append' DISABLE_CLK_DIV_5 s9;
                    c2 = append' DISABLE_CLK_DIV_5 c1;
                    c3 = append' ENABLE_3_PHASE_CLK c2;
                    c4 = execute' dev c3;
                    c5 = append' SET_BITS_LOW_BYTE c4;
                    c6 = append' (SDA_OUT OR SCL) c5;
                    c7 = append' (SDA_OUT OR SCL) c6;
                    c8 = append' SET_CLK_DIV c7;
                    c9 = append' (ucast (dwClockDivisor speed_khz AND 0xFF)) c8;
                    c10 = append' (ucast (drop_bit 8 (dwClockDivisor speed_khz) AND 0xFF)) c9;
                    c11 = execute' dev c10;
                    c12 = append' OPEN_DRAIN c11;
                    c13 = append' (SDA_OUT OR SCL) c12;
                    c14 = append' 0x00 c13;
                    c15 = execute' dev c14;
                    c16 = append' DISABLE_LOOPBACK c15;
                    c17 = execute' dev c16
                in (0, c17))))"

subsection \<open>Transactions\<close>

text \<open>
  \<^verbatim>\<open>main\<close> always calls \<^verbatim>\<open>i2c_transaction\<close> with \<^verbatim>\<open>nwrite = pwbuf - wbuf\<close>, the
  number of bytes it stored in \<^verbatim>\<open>wbuf\<close>; the model takes the payload as a list and
  \<^verbatim>\<open>nwrite\<close> is its length. \<^verbatim>\<open>nread\<close> is a C \<^verbatim>\<open>int\<close> and may be negative.

  The function leaves from inside its blocks; each block returns \<open>Some r\<close> when the
  function returns \<open>r\<close> there and \<open>None\<close> when control falls through to the next
  statement.
\<close>

text \<open>The data loop \<^verbatim>\<open>for(i=0; i<nwrite; i++)\<close> of the write block, over the bytes
  still to send.\<close>

fun send_data :: "ftdi_device \<Rightarrow> byte list \<Rightarrow> i2c_state \<Rightarrow> int option \<times> i2c_state" where
  "send_data dev [] s = (None, s)"
| "send_data dev (b # bs) s =
     (let (r, s1) = i2c_send_bk dev b s
      in if r \<noteq> 0 then
           (let s2 = i2c_stop_bk s1;
                s3 = execute' dev s2
            in (Some SLAVE_NAK_DATA, s3))
         else send_data dev bs s1)"

text \<open>The block \<^verbatim>\<open>if(nwrite) { ... }\<close>.\<close>

definition write_block :: "ftdi_device \<Rightarrow> byte \<Rightarrow> byte list \<Rightarrow> i2c_state \<Rightarrow> int option \<times> i2c_state" where
  "write_block dev slave_addr wbuf s =
     (let nwrite = int (length wbuf)
      in if nwrite \<noteq> 0 then
           (let s1 = i2c_start_bk s;
                (r, s2) = i2c_send_bk dev (word_of_int (WRITE (uint slave_addr))) s1
            in if r \<noteq> 0 then
                 (let s3 = i2c_stop_bk s2;
                      s4 = execute' dev s3
                  in (Some SLAVE_NAK_ADDR, s4))
               else send_data dev wbuf s2)
         else (None, s))"

text \<open>The block \<^verbatim>\<open>if(nread) { ... }\<close>. The result of \<^verbatim>\<open>read_bytes\<close> is dropped.\<close>

definition read_block :: "ftdi_device \<Rightarrow> byte \<Rightarrow> int \<Rightarrow> i2c_state \<Rightarrow> int option \<times> i2c_state" where
  "read_block dev slave_addr nread s =
     (if nread \<noteq> 0 then
        (let s1 = i2c_start_bk s;
             (r, s2) = i2c_send_bk dev (word_of_int (READ (uint slave_addr))) s1
         in if r \<noteq> 0 then
              (let s3 = i2c_stop_bk s2;
                   s4 = execute' dev s3
               in (Some SLAVE_NAK_ADDR, s4))
            else
              (let s3 = snd (read_bytes dev nread s2);
                   s4 = dump_hex (inputBuffer s3) (inputRead s3) s3
               in (None, s4)))
      else (None, s))"

definition i2c_transaction :: "ftdi_device \<Rightarrow> byte \<Rightarrow> int \<Rightarrow> byte list \<Rightarrow> i2c_state \<Rightarrow> int \<times> i2c_state" where
  "i2c_transaction dev slave_addr nread wbuf s =
     (let nwrite = int (length wbuf)
      in case write_block dev slave_addr wbuf s of
           (Some r, s1) \<Rightarrow> (r, s1)
         | (None, s1) \<Rightarrow>
            (case read_block dev slave_addr nread s1 of
               (Some r, s2) \<Rightarrow> (r, s2)
             | (None, s2) \<Rightarrow>
                (if nread \<noteq> 0 \<or> nwrite \<noteq> 0 then
                   (let s3 = i2c_stop_bk s2;
                        s4 = execute' dev s3
                    in (0, s4))
                 else (0, s2))))"

subsection \<open>The parts of \<^verbatim>\<open>main\<close> that touch the bus\<close>

text \<open>Option \<^verbatim>\<open>-a\<close>: \<open>v\<close> is the \<^verbatim>\<open>unsigned long\<close> that \<^verbatim>\<open>strtoul\<close> returns; the
  result is the \<^verbatim>\<open>int slave_addr\<close> of \<^verbatim>\<open>main\<close>.\<close>

definition main_opt_a :: "nat \<Rightarrow> int" where
  "main_opt_a v =
     (let slave_addr = uint (word_of_nat v :: byte)
      in slave_addr AND 0x7F)"

text \<open>The bus scan \<^verbatim>\<open>for(i=0; i<0x7f; i++)\<close> of \<^verbatim>\<open>main\<close>, from the counter \<open>i\<close> on.\<close>

function main_i2c_scan :: "ftdi_device \<Rightarrow> int \<Rightarrow> i2c_state \<Rightarrow> i2c_state" where
  "main_i2c_scan dev i s =
     (if i < 0x7f then
        (let s1 = i2c_start_bk s;
             (r, s2) = i2c_send_bk dev (word_of_int (READ i)) s1;
             s3 = (if r \<noteq> 0 then s2 else s2\<lparr>reported := reported s2 @ [word_of_int i]\<rparr>);
             s4 = i2c_stop_bk s3;
             s5 = execute' dev s4
         in main_i2c_scan dev (i + 1) s5)
      else s)"
  by pat_completeness auto
termination
  by (relation "measure (\<lambda>(dev, i, s). nat (0x7f - i))") auto

subsection \<open>What the chip receives\<close>

text \<open>
  The byte sequences the functions above put into the command buffer, named so that the
  log of \<^verbatim>\<open>FT_Write\<close> payloads can be stated. \<open>queued bs\<close> is the effect of calling
  \<^verbatim>\<open>append\<close> on each byte of \<open>bs\<close> in turn: the bytes that still fit below
  \<^verbatim>\<open>sizeof(outputBuffer) - 1\<close> are stored, the others are dropped.
\<close>

definition queued :: "byte list \<Rightarrow> i2c_state \<Rightarrow> i2c_state" where
  "queued bs s =
     s\<lparr>outputBuffer := outputBuffer s @ take (sizeof_outputBuffer - 1 - length (outputBuffer s)) bs\<rparr>"

text \<open>One call of \<^verbatim>\<open>set_bits\<close>.\<close>

definition set_bits_cmd :: "byte \<Rightarrow> byte list" where
  "set_bits_cmd data = [SET_BITS_LOW_BYTE, data, SDA_OUT OR SCL]"

text \<open>\<^verbatim>\<open>i2c_start_bk\<close>: both lines high, then SDA low with SCL high, then both low, each
  forty times. \<^verbatim>\<open>i2c_stop_bk\<close>: the same states in the opposite order.\<close>

definition start_seq :: "byte list" where
  "start_seq = concat (replicate 40 (set_bits_cmd (SDA_OUT OR SCL))) @
               concat (replicate 40 (set_bits_cmd SCL)) @
               concat (replicate 40 (set_bits_cmd 0))"

definition stop_seq :: "byte list" where
  "stop_seq = concat (replicate 40 (set_bits_cmd 0)) @
              concat (replicate 40 (set_bits_cmd SCL)) @
              concat (replicate 40 (set_bits_cmd (SDA_OUT OR SCL)))"

text \<open>What \<^verbatim>\<open>i2c_send_bk\<close> queues before its \<^verbatim>\<open>execute\<close>: clock the byte out, release
  SDA, clock the acknowledge bit in, send immediately.\<close>

definition send_cmd :: "byte \<Rightarrow> byte list" where
  "send_cmd data = [MSB_FALLING_EDGE_CLOCK_BYTE_OUT, 0x00, 0x00, data] @ set_bits_cmd SDA_OUT @
                   [MSB_RISING_EDGE_CLOCK_BIT_IN, 0x00, SEND_IMMEDIATE]"

text \<open>One round of the loop of \<^verbatim>\<open>read_bytes\<close> (\<open>final\<close>: the round with
  \<^verbatim>\<open>i == nbytes-1\<close>), and everything \<^verbatim>\<open>read_bytes(nbytes)\<close> hands to \<^verbatim>\<open>append\<close>.\<close>

definition read_group :: "bool \<Rightarrow> byte list" where
  "read_group final = [MSB_FALLING_EDGE_CLOCK_BYTE_IN, 0x00, 0x00,
                      MSB_FALLING_EDGE_CLOCK_BIT_OUT, 0x00, if final then 0x80 else 0x00]"

definition read_cmd :: "int \<Rightarrow> byte list" where
  "read_cmd nbytes =
     concat (map (\<lambda>i. read_group (i = nbytes - 1)) [0..nbytes - 1]) @ [SEND_IMMEDIATE]"

text \<open>
  The three kinds of reply the k-th \<^verbatim>\<open>FT_Read\<close> of one byte can bring: the slave pulled
  SDA low (acknowledge), it left SDA high, or the driver failed or delivered nothing.
\<close>

definition ack_reply :: "ftdi_device \<Rightarrow> nat \<Rightarrow> bool" where
  "ack_reply dev k = (fst (read_reply dev k) = FT_OK \<and> snd (read_reply dev k) \<noteq> [] \<and>
                      hd (snd (read_reply dev k)) AND 0x01 = 0x00)"

definition nak_reply :: "ftdi_device \<Rightarrow> nat \<Rightarrow> bool" where
  "nak_reply dev k = (fst (read_reply dev k) = FT_OK \<and> snd (read_reply dev k) \<noteq> [] \<and>
                      hd (snd (read_reply dev k)) AND 0x01 \<noteq> 0x00)"

definition io_error_reply :: "ftdi_device \<Rightarrow> nat \<Rightarrow> bool" where
  "io_error_reply dev k = (fst (read_reply dev k) \<noteq> FT_OK \<or> snd (read_reply dev k) = [])"

text \<open>
  Start and stop conditions in a log of writes. Every \<^verbatim>\<open>i2c_start_bk\<close> of the program
  runs on an empty command buffer and every \<^verbatim>\<open>i2c_stop_bk\<close> is followed by
  \<^verbatim>\<open>execute\<close>, so a start condition is a write that opens with \<open>start_seq\<close> and a
  stop condition a write that ends with \<open>stop_seq\<close>.
\<close>

definition start_conditions :: "byte list list \<Rightarrow> nat" where
  "start_conditions log = length (filter (prefix start_seq) log)"

definition stop_conditions :: "byte list list \<Rightarrow> nat" where
  "stop_conditions log = length (filter (suffix stop_seq) log)"

text \<open>The device opens and every set-up call of \<^verbatim>\<open>ftdi_configure_i2c\<close> succeeds (the
  function ORs the statuses of the set-up calls together and compares the result with
  \<^verbatim>\<open>FT_OK\<close>).\<close>

definition setup_ok :: "ftdi_device \<Rightarrow> bool" where
  "setup_ok dev =
     (open_status dev = FT_OK \<and>
      (reset_status dev OR queue_status dev OR usb_parameters_status dev OR chars_status dev OR
       timeouts_status dev OR latency_status dev OR bitmode_reset_status dev OR
       bitmode_mpsse_status dev) = FT_OK)"

subsection \<open>Example environments\<close>

text \<open>The globals as the C runtime initialises them, and a device whose set-up calls all
  succeed and whose reads follow a script.\<close>

definition idle_state :: i2c_state where
  "idle_state = \<lparr>ftStatus = 0, inputBuffer = replicate 1024 0, outputBuffer = [], inputRead = 0,
                  sent = [], nreads = 0, dumped = [], reported = []\<rparr>"

definition scripted_device :: "(nat \<Rightarrow> ft_status \<times> byte list) \<Rightarrow> ftdi_device" where
  "scripted_device replies =
     \<lparr>open_status = FT_OK, reset_status = FT_OK, queue_status = FT_OK, queue_size = 0,
      usb_parameters_status = FT_OK, chars_status = FT_OK, timeouts_status = FT_OK,
      latency_status = FT_OK, bitmode_reset_status = FT_OK, bitmode_mpsse_status = FT_OK,
      write_status = (\<lambda>k. FT_OK), read_reply = replies\<rparr>"

text \<open>A device that acknowledges the address byte (the first read) and then fails every
  read with status 4 (\<^verbatim>\<open>FT_IO_ERROR\<close> in \<^verbatim>\<open>ftd2xx.h\<close>) and no bytes.\<close>

definition failing_read_device :: ftdi_device where
  "failing_read_device = scripted_device (\<lambda>k. if k = 0 then (FT_OK, [0x00]) else (4, []))"

text \<open>A device on which every \<^verbatim>\<open>FT_Write\<close> fails with status 4 while every read brings an
  acknowledge, and a bus with one slave: only the read with index \<open>0x3C\<close>, the one the bus
  scan makes for address \<open>0x3C\<close>, brings an acknowledge.\<close>

definition failing_write_device :: ftdi_device where
  "failing_write_device = (scripted_device (\<lambda>k. (FT_OK, [0x00])))\<lparr>write_status := (\<lambda>k. 4)\<rparr>"

definition one_slave_device :: ftdi_device where
  "one_slave_device = scripted_device (\<lambda>k. if k = 0x3C then (FT_OK, [0x00]) else (FT_OK, [0x01]))"

section \<open>The effect of each function on the command buffer and the log\<close>

declare read_bytes_loop.simps [simp del] main_i2c_scan.simps [simp del]

lemma queued_Nil [simp]: "queued [] s = s"
  by (simp add: queued_def)

lemma queued_queued: "queued ys (queued xs s) = queued (xs @ ys) s"
  by (simp add: queued_def min_def)

lemma append'_queued: "append' d s = queued [d] s"
  by (simp add: append'_def append_def queued_def sizeof_outputBuffer_def)

lemma set_bits_queued: "set_bits d s = queued (set_bits_cmd d) s"
  by (simp add: set_bits_def Let_def append'_queued queued_queued set_bits_cmd_def)

lemma concat_replicate_snoc: "concat (replicate n c) @ c = c @ concat (replicate n c)"
  by (induction n) simp_all

lemma set_bits_funpow: "(set_bits d ^^ n) s = queued (concat (replicate n (set_bits_cmd d))) s"
  by (induction n arbitrary: s) (simp_all add: set_bits_queued queued_queued concat_replicate_snoc)

lemma i2c_start_bk_queued: "i2c_start_bk s = queued start_seq s"
  by (simp add: i2c_start_bk_def Let_def set_bits_funpow queued_queued start_seq_def)

lemma i2c_stop_bk_queued: "i2c_stop_bk s = queued stop_seq s"
  by (simp add: i2c_stop_bk_def Let_def set_bits_funpow queued_queued stop_seq_def)

lemma length_start_seq: "length start_seq = 360"
  by (simp add: start_seq_def set_bits_cmd_def length_concat sum_list_replicate)

lemma length_stop_seq: "length stop_seq = 360"
  by (simp add: stop_seq_def set_bits_cmd_def length_concat sum_list_replicate)

lemma length_send_cmd: "length (send_cmd d) = 10"
  by (simp add: send_cmd_def set_bits_cmd_def)

lemma queued_fits:
  "length (outputBuffer s) + length bs \<le> 1023 \<Longrightarrow> queued bs s = s\<lparr>outputBuffer := outputBuffer s @ bs\<rparr>"
  by (simp add: queued_def sizeof_outputBuffer_def)

lemma execute'_nonempty:
  "outputBuffer s \<noteq> [] \<Longrightarrow>
   execute' dev s = s\<lparr>sent := sent s @ [outputBuffer s],
                      ftStatus := write_status dev (length (sent s)), outputBuffer := []\<rparr>"
  by (simp add: execute'_def execute_def FT_Write_def Let_def)

lemma execute'_empty: "outputBuffer s = [] \<Longrightarrow> execute' dev s = s"
  by (simp add: execute'_def execute_def)

lemma i2c_send_bk_queued:
  "i2c_send_bk dev d s =
     (let s9 = execute' dev (queued (send_cmd d) s);
          s11 = (snd (FT_Read dev 1 s9))\<lparr>ftStatus := fst (FT_Read dev 1 s9)\<rparr>
      in if ftStatus s11 \<noteq> FT_OK \<or> inputRead s11 = 0 then (- 2, s11)
         else if (inputBuffer s11 ! 0) AND 0x01 \<noteq> 0x00 then (- 1, s11)
         else (0, execute' dev (queued (set_bits_cmd SDA_OUT) s11)))"
  by (simp add: i2c_send_bk_def Let_def append'_queued set_bits_queued queued_queued send_cmd_def
      split: prod.splits)

lemma FT_Read_fields:
  "fst (FT_Read dev n s) = fst (read_reply dev (nreads s))"
  "inputRead (snd (FT_Read dev n s)) = length (take n (snd (read_reply dev (nreads s))))"
  "inputBuffer (snd (FT_Read dev n s)) =
     take n (snd (read_reply dev (nreads s))) @
     drop (length (take n (snd (read_reply dev (nreads s))))) (inputBuffer s)"
  "outputBuffer (snd (FT_Read dev n s)) = outputBuffer s"
  "sent (snd (FT_Read dev n s)) = sent s"
  "nreads (snd (FT_Read dev n s)) = Suc (nreads s)"
  "reported (snd (FT_Read dev n s)) = reported s"
  "dumped (snd (FT_Read dev n s)) = dumped s"
  by (simp_all add: FT_Read_def Let_def split: prod.splits)

lemma FT_Read_one:
  "inputRead (snd (FT_Read dev (Suc 0) s)) = 0 \<longleftrightarrow> snd (read_reply dev (nreads s)) = []"
  "snd (read_reply dev (nreads s)) \<noteq> [] \<Longrightarrow>
     inputBuffer (snd (FT_Read dev (Suc 0) s)) ! 0 = hd (snd (read_reply dev (nreads s)))"
  by (cases "snd (read_reply dev (nreads s))"; simp add: FT_Read_fields)+

lemma queued_fields [simp]:
  "sent (queued bs s) = sent s"
  "nreads (queued bs s) = nreads s"
  "reported (queued bs s) = reported s"
  "dumped (queued bs s) = dumped s"
  "inputBuffer (queued bs s) = inputBuffer s"
  "inputRead (queued bs s) = inputRead s"
  "ftStatus (queued bs s) = ftStatus s"
  by (simp_all add: queued_def)

lemma queued_nonempty: "bs \<noteq> [] \<Longrightarrow> outputBuffer (queued bs s) \<noteq> []"
  by (cases bs) (simp_all add: queued_def sizeof_outputBuffer_def)

lemma outputBuffer_queued_fits:
  "length (outputBuffer s) + length bs \<le> 1023 \<Longrightarrow> outputBuffer (queued bs s) = outputBuffer s @ bs"
  by (simp add: queued_def sizeof_outputBuffer_def)

lemma execute'_fields:
  "outputBuffer (execute' dev s) = []"
  "sent (execute' dev s) = (if outputBuffer s = [] then sent s else sent s @ [outputBuffer s])"
  "nreads (execute' dev s) = nreads s"
  "reported (execute' dev s) = reported s"
  "dumped (execute' dev s) = dumped s"
  "inputBuffer (execute' dev s) = inputBuffer s"
  "inputRead (execute' dev s) = inputRead s"
  by (simp_all add: execute'_def execute_def FT_Write_def Let_def)

lemma reply_cases:
  "io_error_reply dev k \<or> nak_reply dev k \<or> ack_reply dev k"
  "\<not> (io_error_reply dev k \<and> nak_reply dev k)"
  "\<not> (io_error_reply dev k \<and> ack_reply dev k)"
  "\<not> (nak_reply dev k \<and> ack_reply dev k)"
  by (auto simp add: io_error_reply_def nak_reply_def ack_reply_def)

lemma i2c_send_bk_result:
  "fst (i2c_send_bk dev d s) =
     (if io_error_reply dev (nreads s) then - 2 else if nak_reply dev (nreads s) then - 1 else 0)"
proof -
  obtain st data where r: "read_reply dev (nreads s) = (st, data)"
    by (cases "read_reply dev (nreads s)")
  have n: "nreads (execute' dev (queued (send_cmd d) s)) = nreads s"
    by (simp add: execute'_fields)
  show ?thesis
    by (cases data)
      (simp_all add: i2c_send_bk_queued Let_def FT_Read_def n r io_error_reply_def nak_reply_def)
qed

lemma i2c_send_bk_fields:
  "outputBuffer (snd (i2c_send_bk dev d s)) = []"
  "sent (snd (i2c_send_bk dev d s)) =
     sent s @ [outputBuffer (queued (send_cmd d) s)] @
     (if ack_reply dev (nreads s) then [set_bits_cmd SDA_OUT] else [])"
  "nreads (snd (i2c_send_bk dev d s)) = Suc (nreads s)"
  "reported (snd (i2c_send_bk dev d s)) = reported s"
  "dumped (snd (i2c_send_bk dev d s)) = dumped s"
proof -
  obtain st data where r: "read_reply dev (nreads s) = (st, data)"
    by (cases "read_reply dev (nreads s)")
  define s9 where "s9 = execute' dev (queued (send_cmd d) s)"
  have s9: "nreads s9 = nreads s" "outputBuffer s9 = []" "reported s9 = reported s"
    "dumped s9 = dumped s" "sent s9 = sent s @ [outputBuffer (queued (send_cmd d) s)]"
    by (simp_all add: s9_def execute'_fields queued_nonempty send_cmd_def)
  have q: "outputBuffer (queued (set_bits_cmd SDA_OUT) t) = set_bits_cmd SDA_OUT"
    if "outputBuffer t = []" for t
    using that by (simp add: outputBuffer_queued_fits set_bits_cmd_def)
  have ne: "set_bits_cmd SDA_OUT \<noteq> []"
    by (simp add: set_bits_cmd_def)
  note defs = ne i2c_send_bk_queued Let_def FT_Read_def r s9 execute'_fields q ack_reply_def
  show "outputBuffer (snd (i2c_send_bk dev d s)) = []"
    unfolding i2c_send_bk_queued s9_def [symmetric] by (cases data) (simp_all add: defs)
  show "sent (snd (i2c_send_bk dev d s)) =
     sent s @ [outputBuffer (queued (send_cmd d) s)] @
     (if ack_reply dev (nreads s) then [set_bits_cmd SDA_OUT] else [])"
    unfolding i2c_send_bk_queued s9_def [symmetric]
    by (cases data) (simp_all add: defs)
  show "nreads (snd (i2c_send_bk dev d s)) = Suc (nreads s)"
    unfolding i2c_send_bk_queued s9_def [symmetric] by (cases data) (simp_all add: defs)
  show "reported (snd (i2c_send_bk dev d s)) = reported s"
    unfolding i2c_send_bk_queued s9_def [symmetric] by (cases data) (simp_all add: defs)
  show "dumped (snd (i2c_send_bk dev d s)) = dumped s"
    unfolding i2c_send_bk_queued s9_def [symmetric] by (cases data) (simp_all add: defs)
qed

lemma upto_step2: "i \<le> j \<Longrightarrow> [i..j] = i # [i + 1..j]" for i :: int
  by (subst upto.simps) simp

lemma read_bytes_loop_queued:
  "read_bytes_loop i nbytes s =
     queued (concat (map (\<lambda>k. read_group (k = nbytes - 1)) [i..nbytes - 1])) s"
proof (induction i nbytes s rule: read_bytes_loop.induct)
  case (1 i nbytes s)
  show ?case
  proof (cases "i < nbytes")
    case True
    then have u: "[i..nbytes - 1] = i # [i + 1..nbytes - 1]"
      by (intro upto_step2) simp
    note ih = "1.IH" [OF True refl refl refl refl refl refl]
    show ?thesis
      apply (subst read_bytes_loop.simps)
      apply (simp only: True if_True Let_def ih u)
      apply (simp add: append'_queued queued_queued read_group_def)
      done
  next
    case False
    then show ?thesis
      by (subst read_bytes_loop.simps) simp
  qed
qed

lemma read_bytes_eq:
  assumes "0 < nbytes"
  shows "read_bytes dev nbytes s =
      (0, (snd (FT_Read dev (nat nbytes) (execute' dev (queued (read_cmd nbytes) s))))
            \<lparr>ftStatus := fst (FT_Read dev (nat nbytes) (execute' dev (queued (read_cmd nbytes) s)))\<rparr>)"
proof -
  have "append' SEND_IMMEDIATE (read_bytes_loop 0 nbytes s) = queued (read_cmd nbytes) s"
    by (simp only: read_bytes_loop_queued append'_queued queued_queued read_cmd_def)
  then show ?thesis
    using assms by (simp add: read_bytes_def Let_def split: prod.splits)
qed

lemma read_bytes_fields:
  assumes "0 < nbytes"
  shows "fst (read_bytes dev nbytes s) = 0"
    and "outputBuffer (snd (read_bytes dev nbytes s)) = []"
    and "sent (snd (read_bytes dev nbytes s)) = sent s @ [outputBuffer (queued (read_cmd nbytes) s)]"
    and "nreads (snd (read_bytes dev nbytes s)) = Suc (nreads s)"
    and "reported (snd (read_bytes dev nbytes s)) = reported s"
    and "ftStatus (snd (read_bytes dev nbytes s)) = fst (read_reply dev (nreads s))"
    and "inputRead (snd (read_bytes dev nbytes s)) =
           length (take (nat nbytes) (snd (read_reply dev (nreads s))))"
proof -
  have ne: "outputBuffer (queued (read_cmd nbytes) s) \<noteq> []"
    by (rule queued_nonempty) (simp add: read_cmd_def)
  note eq = read_bytes_eq [OF assms]
  show "fst (read_bytes dev nbytes s) = 0"
    and "outputBuffer (snd (read_bytes dev nbytes s)) = []"
    and "sent (snd (read_bytes dev nbytes s)) = sent s @ [outputBuffer (queued (read_cmd nbytes) s)]"
    and "nreads (snd (read_bytes dev nbytes s)) = Suc (nreads s)"
    and "reported (snd (read_bytes dev nbytes s)) = reported s"
    and "ftStatus (snd (read_bytes dev nbytes s)) = fst (read_reply dev (nreads s))"
    and "inputRead (snd (read_bytes dev nbytes s)) =
           length (take (nat nbytes) (snd (read_reply dev (nreads s))))"
    using ne by (simp_all add: eq FT_Read_fields execute'_fields)
qed

lemma send_data_all_ack:
  assumes "outputBuffer s = []" and "\<forall>j < length bs. ack_reply dev (nreads s + j)"
  shows "fst (send_data dev bs s) = None \<and>
         outputBuffer (snd (send_data dev bs s)) = [] \<and>
         sent (snd (send_data dev bs s)) =
           sent s @ concat (map (\<lambda>b. [send_cmd b, set_bits_cmd SDA_OUT]) bs) \<and>
         nreads (snd (send_data dev bs s)) = nreads s + length bs \<and>
         reported (snd (send_data dev bs s)) = reported s"
  using assms
proof (induction bs arbitrary: s)
  case Nil
  then show ?case by simp
next
  case (Cons b bs)
  obtain r s1 where p: "i2c_send_bk dev b s = (r, s1)"
    by (cases "i2c_send_bk dev b s")
  from Cons.prems have a0: "ack_reply dev (nreads s)"
    by force
  have r: "r = 0"
    using i2c_send_bk_result [of dev b s] a0 reply_cases [of dev "nreads s"] by (auto simp add: p)
  have q: "outputBuffer (queued (send_cmd b) s) = send_cmd b"
    using Cons.prems(1) by (simp add: outputBuffer_queued_fits length_send_cmd)
  have f: "outputBuffer s1 = []" "sent s1 = sent s @ [send_cmd b, set_bits_cmd SDA_OUT]"
    "nreads s1 = Suc (nreads s)" "reported s1 = reported s"
    using i2c_send_bk_fields [of dev b s] a0 by (simp_all add: p q)
  have "\<forall>j < length bs. ack_reply dev (nreads s1 + j)"
    using Cons.prems(2) by (auto simp add: f)
  from Cons.IH [OF f(1) this] show ?case
    by (simp add: p r f)
qed

lemma start_send_fields:
  assumes "outputBuffer s = []"
  shows "fst (i2c_send_bk dev d (i2c_start_bk s)) =
           (if io_error_reply dev (nreads s) then - 2 else if nak_reply dev (nreads s) then - 1 else 0)"
    and "outputBuffer (snd (i2c_send_bk dev d (i2c_start_bk s))) = []"
    and "sent (snd (i2c_send_bk dev d (i2c_start_bk s))) =
           sent s @ [start_seq @ send_cmd d] @
           (if ack_reply dev (nreads s) then [set_bits_cmd SDA_OUT] else [])"
    and "nreads (snd (i2c_send_bk dev d (i2c_start_bk s))) = Suc (nreads s)"
    and "reported (snd (i2c_send_bk dev d (i2c_start_bk s))) = reported s"
proof -
  have "queued (send_cmd d) (queued start_seq s) = queued (start_seq @ send_cmd d) s"
    by (simp add: queued_queued)
  then have b: "outputBuffer (queued (send_cmd d) (queued start_seq s)) = start_seq @ send_cmd d"
    using assms by (simp add: outputBuffer_queued_fits length_start_seq length_send_cmd)
  show "fst (i2c_send_bk dev d (i2c_start_bk s)) =
           (if io_error_reply dev (nreads s) then - 2 else if nak_reply dev (nreads s) then - 1 else 0)"
    by (simp add: i2c_send_bk_result i2c_start_bk_queued)
  show "outputBuffer (snd (i2c_send_bk dev d (i2c_start_bk s))) = []"
    and "sent (snd (i2c_send_bk dev d (i2c_start_bk s))) =
           sent s @ [start_seq @ send_cmd d] @
           (if ack_reply dev (nreads s) then [set_bits_cmd SDA_OUT] else [])"
    and "nreads (snd (i2c_send_bk dev d (i2c_start_bk s))) = Suc (nreads s)"
    and "reported (snd (i2c_send_bk dev d (i2c_start_bk s))) = reported s"
    by (simp_all add: i2c_send_bk_fields i2c_start_bk_queued b)
qed

lemma stop_execute_fields:
  assumes "outputBuffer s = []"
  shows "outputBuffer (execute' dev (i2c_stop_bk s)) = []"
    and "sent (execute' dev (i2c_stop_bk s)) = sent s @ [stop_seq]"
    and "nreads (execute' dev (i2c_stop_bk s)) = nreads s"
    and "reported (execute' dev (i2c_stop_bk s)) = reported s"
proof -
  have b: "outputBuffer (queued stop_seq s) = stop_seq"
    using assms by (simp add: outputBuffer_queued_fits length_stop_seq)
  have "stop_seq \<noteq> []"
    using length_stop_seq by auto
  then show "outputBuffer (execute' dev (i2c_stop_bk s)) = []"
    and "sent (execute' dev (i2c_stop_bk s)) = sent s @ [stop_seq]"
    and "nreads (execute' dev (i2c_stop_bk s)) = nreads s"
    and "reported (execute' dev (i2c_stop_bk s)) = reported s"
    by (simp_all add: execute'_fields i2c_stop_bk_queued b)
qed

lemma send_result_ack: "ack_reply dev (nreads s) \<Longrightarrow> fst (i2c_send_bk dev d s) = 0"
  using reply_cases [of dev "nreads s"] by (auto simp add: i2c_send_bk_result)

lemma send_result_not_ack: "\<not> ack_reply dev (nreads s) \<Longrightarrow> fst (i2c_send_bk dev d s) \<noteq> 0"
  using reply_cases [of dev "nreads s"] by (auto simp add: i2c_send_bk_result)

lemma write_block_nak:
  assumes "outputBuffer s = []" and "wbuf \<noteq> []" and "\<not> ack_reply dev (nreads s)"
  shows "fst (write_block dev slave_addr wbuf s) = Some SLAVE_NAK_ADDR \<and>
         outputBuffer (snd (write_block dev slave_addr wbuf s)) = [] \<and>
         sent (snd (write_block dev slave_addr wbuf s)) =
           sent s @ [start_seq @ send_cmd (word_of_int (WRITE (uint slave_addr))), stop_seq] \<and>
         nreads (snd (write_block dev slave_addr wbuf s)) = Suc (nreads s)"
proof -
  define d :: byte where "d = word_of_int (WRITE (uint slave_addr))"
  obtain r s2 where p: "i2c_send_bk dev d (i2c_start_bk s) = (r, s2)"
    by (cases "i2c_send_bk dev d (i2c_start_bk s)")
  have n: "nreads (i2c_start_bk s) = nreads s"
    by (simp add: i2c_start_bk_queued)
  have r: "r \<noteq> 0"
    using send_result_not_ack [of dev "i2c_start_bk s" d] assms(3) by (simp add: p n)
  have f: "outputBuffer s2 = []" "sent s2 = sent s @ [start_seq @ send_cmd d]"
    "nreads s2 = Suc (nreads s)"
    using start_send_fields [OF assms(1), of dev d] assms(3) by (simp_all add: p)
  show ?thesis
    using assms(2) r stop_execute_fields [OF f(1), of dev]
    by (simp add: write_block_def Let_def d_def [symmetric] p f)
qed

lemma write_block_all_ack:
  assumes "outputBuffer s = []" and "wbuf \<noteq> []"
    and "\<forall>j \<le> length wbuf. ack_reply dev (nreads s + j)"
  shows "fst (write_block dev slave_addr wbuf s) = None \<and>
         outputBuffer (snd (write_block dev slave_addr wbuf s)) = [] \<and>
         sent (snd (write_block dev slave_addr wbuf s)) =
           sent s @ [start_seq @ send_cmd (word_of_int (WRITE (uint slave_addr))), set_bits_cmd SDA_OUT] @
           concat (map (\<lambda>b. [send_cmd b, set_bits_cmd SDA_OUT]) wbuf) \<and>
         nreads (snd (write_block dev slave_addr wbuf s)) = Suc (nreads s + length wbuf) \<and>
         reported (snd (write_block dev slave_addr wbuf s)) = reported s"
proof -
  define d :: byte where "d = word_of_int (WRITE (uint slave_addr))"
  obtain r s2 where p: "i2c_send_bk dev d (i2c_start_bk s) = (r, s2)"
    by (cases "i2c_send_bk dev d (i2c_start_bk s)")
  have n: "nreads (i2c_start_bk s) = nreads s"
    by (simp add: i2c_start_bk_queued)
  from assms(3) have a0: "ack_reply dev (nreads s)"
    by force
  have r: "r = 0"
    using send_result_ack [of dev "i2c_start_bk s" d] a0 by (simp add: p n)
  have f: "outputBuffer s2 = []" "sent s2 = sent s @ [start_seq @ send_cmd d, set_bits_cmd SDA_OUT]"
    "nreads s2 = Suc (nreads s)" "reported s2 = reported s"
    using start_send_fields [OF assms(1), of dev d] a0 by (simp_all add: p)
  have "\<forall>j < length wbuf. ack_reply dev (nreads s2 + j)"
  proof (intro allI impI)
    fix j assume "j < length wbuf"
    then have "Suc j \<le> length wbuf" by simp
    with assms(3) have "ack_reply dev (nreads s + Suc j)" by blast
    then show "ack_reply dev (nreads s2 + j)" by (simp add: f)
  qed
  from send_data_all_ack [OF f(1) this] show ?thesis
    using assms(2) by (simp add: write_block_def Let_def d_def [symmetric] p r f)
qed

lemma read_block_ack:
  assumes "outputBuffer s = []" and "0 < nread" and "ack_reply dev (nreads s)"
  shows "fst (read_block dev slave_addr nread s) = None \<and>
         outputBuffer (snd (read_block dev slave_addr nread s)) = [] \<and>
         sent (snd (read_block dev slave_addr nread s)) =
           sent s @ [start_seq @ send_cmd (word_of_int (READ (uint slave_addr))), set_bits_cmd SDA_OUT,
                     take (sizeof_outputBuffer - 1) (read_cmd nread)] \<and>
         nreads (snd (read_block dev slave_addr nread s)) = Suc (Suc (nreads s)) \<and>
         reported (snd (read_block dev slave_addr nread s)) = reported s"
proof -
  define d :: byte where "d = word_of_int (READ (uint slave_addr))"
  obtain r s2 where p: "i2c_send_bk dev d (i2c_start_bk s) = (r, s2)"
    by (cases "i2c_send_bk dev d (i2c_start_bk s)")
  have n: "nreads (i2c_start_bk s) = nreads s"
    by (simp add: i2c_start_bk_queued)
  have r: "r = 0"
    using send_result_ack [of dev "i2c_start_bk s" d] assms(3) by (simp add: p n)
  have f: "outputBuffer s2 = []" "sent s2 = sent s @ [start_seq @ send_cmd d, set_bits_cmd SDA_OUT]"
    "nreads s2 = Suc (nreads s)" "reported s2 = reported s"
    using start_send_fields [OF assms(1), of dev d] assms(3) by (simp_all add: p)
  have q: "outputBuffer (queued (read_cmd nread) s2) = take (sizeof_outputBuffer - 1) (read_cmd nread)"
    by (simp add: queued_def f)
  show ?thesis
    using assms(2) read_bytes_fields [OF assms(2), of dev s2]
    by (simp add: read_block_def Let_def d_def [symmetric] p r f q dump_hex_def)
qed

lemma lines_high: "SDA_OUT OR SCL = 3" "SCL = 1" "SDA_OUT = 2"
  by (simp_all add: SDA_OUT_def SCL_def)

lemma replicate_40: "replicate 40 x = x # replicate 39 x"
  by (simp add: numeral_eq_Suc)

lemma start_seq_nth: "start_seq ! Suc 0 = 3"
  by (simp add: start_seq_def set_bits_cmd_def lines_high replicate_40)

lemma stop_seq_nth: "stop_seq ! Suc 0 = 0"
  by (simp add: stop_seq_def set_bits_cmd_def replicate_40)

lemma last_stop_seq: "last stop_seq = 3"
proof -
  have "concat (replicate 40 (set_bits_cmd (SDA_OUT OR SCL))) =
        concat (replicate 39 (set_bits_cmd (SDA_OUT OR SCL))) @ set_bits_cmd (SDA_OUT OR SCL)"
    by (simp add: replicate_40 concat_replicate_snoc)
  then show ?thesis
    by (simp add: stop_seq_def set_bits_cmd_def lines_high)
qed

lemma three_in_seqs: "3 \<in> set start_seq" "3 \<in> set stop_seq"
proof -
  have "start_seq ! Suc 0 \<in> set start_seq"
    by (rule nth_mem) (simp add: length_start_seq)
  then show "3 \<in> set start_seq"
    by (simp add: start_seq_nth)
  have "stop_seq \<noteq> []"
    using length_stop_seq by auto
  then have "last stop_seq \<in> set stop_seq"
    by (rule last_in_set)
  then show "3 \<in> set stop_seq"
    by (simp add: last_stop_seq)
qed

lemma three_notin_read_cmd: "3 \<notin> set (read_cmd n)"
  by (auto simp add: read_cmd_def read_group_def MSB_FALLING_EDGE_CLOCK_BYTE_IN_def
      MSB_FALLING_EDGE_CLOCK_BIT_OUT_def SEND_IMMEDIATE_def)

lemma not_prefix_start_seq:
  "\<not> prefix start_seq (set_bits_cmd v)"
  "\<not> prefix start_seq (send_cmd b)"
  "\<not> prefix start_seq (take k (read_cmd n))"
  "\<not> prefix start_seq stop_seq"
proof -
  show "\<not> prefix start_seq (set_bits_cmd v)"
    using prefix_length_le [of start_seq "set_bits_cmd v"]
    by (auto simp add: length_start_seq set_bits_cmd_def)
  show "\<not> prefix start_seq (send_cmd b)"
    using prefix_length_le [of start_seq "send_cmd b"]
    by (auto simp add: length_start_seq length_send_cmd)
  show "\<not> prefix start_seq (take k (read_cmd n))"
    using three_in_seqs(1) three_notin_read_cmd [of n] set_mono_prefix [of start_seq "take k (read_cmd n)"]
      set_take_subset [of k "read_cmd n"] by blast
  show "\<not> prefix start_seq stop_seq"
  proof
    assume "prefix start_seq stop_seq"
    then obtain zs where z: "stop_seq = start_seq @ zs"
      by (auto simp add: prefix_def)
    have "(start_seq @ zs) ! Suc 0 = start_seq ! Suc 0"
      by (simp add: nth_append length_start_seq)
    with z have "stop_seq ! Suc 0 = start_seq ! Suc 0"
      by simp
    then show False
      by (simp add: start_seq_nth stop_seq_nth)
  qed
qed

lemma not_suffix_stop_seq:
  "\<not> suffix stop_seq (set_bits_cmd v)"
  "\<not> suffix stop_seq (send_cmd b)"
  "\<not> suffix stop_seq (take k (read_cmd n))"
  "\<not> suffix stop_seq (start_seq @ send_cmd b)"
proof -
  show "\<not> suffix stop_seq (set_bits_cmd v)"
    using suffix_length_le [of stop_seq "set_bits_cmd v"]
    by (auto simp add: length_stop_seq set_bits_cmd_def)
  show "\<not> suffix stop_seq (send_cmd b)"
    using suffix_length_le [of stop_seq "send_cmd b"]
    by (auto simp add: length_stop_seq length_send_cmd)
  show "\<not> suffix stop_seq (take k (read_cmd n))"
    using three_in_seqs(2) three_notin_read_cmd [of n] set_mono_suffix [of stop_seq "take k (read_cmd n)"]
      set_take_subset [of k "read_cmd n"] by blast
  show "\<not> suffix stop_seq (start_seq @ send_cmd b)"
  proof
    assume "suffix stop_seq (start_seq @ send_cmd b)"
    then obtain p where "start_seq @ send_cmd b = p @ stop_seq"
      by (auto simp add: suffix_def)
    moreover have "stop_seq \<noteq> []"
      using length_stop_seq by auto
    ultimately have "last (start_seq @ send_cmd b) = 3"
      by (simp add: last_stop_seq)
    then show False
      by (simp add: send_cmd_def SEND_IMMEDIATE_def)
  qed
qed

lemma payload_no_conditions:
  "filter (prefix start_seq) (concat (map (\<lambda>b. [send_cmd b, set_bits_cmd v]) bs)) = []"
  "filter (suffix stop_seq) (concat (map (\<lambda>b. [send_cmd b, set_bits_cmd v]) bs)) = []"
  by (induction bs) (simp_all add: not_prefix_start_seq not_suffix_stop_seq)

lemma read_only_returns_0:
  assumes "outputBuffer s = []" and "0 < nread" and "ack_reply dev (nreads s)"
  shows "fst (i2c_transaction dev slave_addr nread [] s) = 0"
proof -
  obtain r2 s2 where r: "read_block dev slave_addr nread s = (r2, s2)"
    by (cases "read_block dev slave_addr nread s")
  from read_block_ack [OF assms, of slave_addr] have "r2 = None"
    by (simp add: r)
  then show ?thesis
    using assms(2) by (simp add: i2c_transaction_def write_block_def r)
qed

lemma idle_state_fields:
  "outputBuffer idle_state = []" "sent idle_state = []" "nreads idle_state = 0"
  by (simp_all add: idle_state_def)

lemma scripted_device_replies:
  "ack_reply (scripted_device (\<lambda>k. (FT_OK, [0x00]))) k"
  "nak_reply (scripted_device (\<lambda>k. (FT_OK, [0x01]))) k"
  by (simp_all add: ack_reply_def nak_reply_def scripted_device_def)

lemma READ_arith: "READ a = 2 * a + 1"
  by (simp add: READ_def push_bit_eq_mult or_one_eq)

lemma WRITE_arith: "WRITE a = 2 * a"
  by (simp add: WRITE_def push_bit_eq_mult)

lemma uint_byte_of_int: "0 \<le> y \<Longrightarrow> y < 256 \<Longrightarrow> uint (word_of_int y :: byte) = y"
  by (simp add: uint_word_of_int)

lemma main_opt_a_mod: "main_opt_a v = int (v mod 128)"
proof -
  have "uint (word_of_nat v :: byte) = int (v mod 256)"
    using unat_of_nat [where 'a = 8, of v] by (simp add: uint_nat)
  moreover have "x AND 0x7F = take_bit 7 x" for x :: int
    by (simp add: take_bit_eq_mask mask_eq_exp_minus_1)
  ultimately have "main_opt_a v = int (v mod 256) mod 128"
    by (simp add: main_opt_a_def take_bit_eq_mod)
  also have "\<dots> = int (v mod 128)"
  proof -
    have "v mod 256 mod 128 = v mod 128"
      by (rule mod_mod_cancel) simp
    then show ?thesis
      by (metis of_nat_numeral zmod_int)
  qed
  finally show ?thesis .
qed

lemma queued_execute':
  assumes "outputBuffer s = []" and "bs \<noteq> []" and "length bs \<le> 1023"
  shows "sent (execute' dev (queued bs s)) = sent s @ [bs]"
    and "outputBuffer (execute' dev (queued bs s)) = []"
  using assms queued_nonempty [of bs s]
  by (simp_all add: execute'_fields outputBuffer_queued_fits)

lemma FT_Read_ftStatus: "ftStatus (snd (FT_Read dev n s)) = ftStatus s"
  by (simp add: FT_Read_def Let_def split: prod.splits)

lemma ftdi_configure_i2c_log:
  assumes "setup_ok dev" and "outputBuffer s = []"
  shows "fst (ftdi_configure_i2c dev speed_khz s) = 0 \<and>
         sent (snd (ftdi_configure_i2c dev speed_khz s)) =
           sent s @
           [[DISABLE_CLK_DIV_5, DISABLE_CLK_DIV_5, ENABLE_3_PHASE_CLK],
            [SET_BITS_LOW_BYTE, SDA_OUT OR SCL, SDA_OUT OR SCL, SET_CLK_DIV,
             ucast (dwClockDivisor speed_khz AND 0xFF),
             ucast (drop_bit 8 (dwClockDivisor speed_khz) AND 0xFF)],
            [OPEN_DRAIN, SDA_OUT OR SCL, 0x00],
            [DISABLE_LOOPBACK]] \<and>
         outputBuffer (snd (ftdi_configure_i2c dev speed_khz s)) = []"
proof -
  define s9 where "s9 =
    (if queue_size dev > 0 then snd (FT_Read dev (queue_size dev) (s\<lparr>ftStatus := FT_OK\<rparr>))
     else s\<lparr>ftStatus := FT_OK\<rparr>)"
  have s9: "outputBuffer s9 = []" "sent s9 = sent s"
    using assms(2) by (simp_all add: s9_def FT_Read_fields)
  define lo hi :: byte where "lo = ucast (dwClockDivisor speed_khz AND 0xFF)"
    and "hi = ucast (drop_bit 8 (dwClockDivisor speed_khz) AND 0xFF)"
  define c4 where "c4 = execute' dev (queued [DISABLE_CLK_DIV_5, DISABLE_CLK_DIV_5, ENABLE_3_PHASE_CLK] s9)"
  define c11 where "c11 = execute' dev (queued [SET_BITS_LOW_BYTE, SDA_OUT OR SCL, SDA_OUT OR SCL, SET_CLK_DIV, lo, hi] c4)"
  define c15 where "c15 = execute' dev (queued [OPEN_DRAIN, SDA_OUT OR SCL, 0x00] c11)"
  define c17 where "c17 = execute' dev (queued [DISABLE_LOOPBACK] c15)"
  have c4: "outputBuffer c4 = []"
    "sent c4 = sent s @ [[DISABLE_CLK_DIV_5, DISABLE_CLK_DIV_5, ENABLE_3_PHASE_CLK]]"
    unfolding c4_def using s9 by (simp_all add: queued_execute')
  have c11: "outputBuffer c11 = []"
    "sent c11 = sent c4 @ [[SET_BITS_LOW_BYTE, SDA_OUT OR SCL, SDA_OUT OR SCL, SET_CLK_DIV, lo, hi]]"
    unfolding c11_def using c4(1) by (simp_all add: queued_execute')
  have c15: "outputBuffer c15 = []" "sent c15 = sent c11 @ [[OPEN_DRAIN, SDA_OUT OR SCL, 0x00]]"
    unfolding c15_def using c11(1) by (simp_all add: queued_execute')
  have c17: "outputBuffer c17 = []" "sent c17 = sent c15 @ [[DISABLE_LOOPBACK]]"
    unfolding c17_def using c15(1) by (simp_all add: queued_execute')
  have st: "open_status dev = 0" "reset_status dev = 0" "queue_status dev = 0"
    "usb_parameters_status dev = 0" "chars_status dev = 0" "timeouts_status dev = 0"
    "latency_status dev = 0" "bitmode_reset_status dev = 0" "bitmode_mpsse_status dev = 0"
    using assms(1) by (simp_all add: setup_ok_def FT_OK_def or_eq_0_iff)
  have "ftdi_configure_i2c dev speed_khz s = (0, c17)"
    by (simp add: ftdi_configure_i2c_def Let_def st FT_OK_def append'_queued queued_queued
        c17_def c15_def c11_def c4_def s9_def lo_def hi_def FT_Read_ftStatus)
  then show ?thesis
    by (simp add: c17 c15 c11 c4 lo_def hi_def)
qed

lemma main_i2c_scan_effect:
  assumes "outputBuffer s = []" and "0 \<le> i"
  shows "outputBuffer (main_i2c_scan dev i s) = [] \<and>
         nreads (main_i2c_scan dev i s) = nreads s + nat (0x7f - i) \<and>
         reported (main_i2c_scan dev i s) =
           reported s @ map word_of_int (filter (\<lambda>k. ack_reply dev (nreads s + nat (k - i))) [i..0x7e]) \<and>
         sent (main_i2c_scan dev i s) =
           sent s @ concat (map (\<lambda>k. [start_seq @ send_cmd (word_of_int (READ k))] @
                                      (if ack_reply dev (nreads s + nat (k - i))
                                       then [set_bits_cmd SDA_OUT] else []) @ [stop_seq]) [i..0x7e])"
  using assms
proof (induction dev i s rule: main_i2c_scan.induct)
  case (1 dev i s)
  show ?case
  proof (cases "i < 0x7f")
    case False
    then show ?thesis
      using "1.prems" by (subst (1 2 3 4) main_i2c_scan.simps) simp
  next
    case True
    define d :: byte where "d = word_of_int (READ i)"
    obtain r s2 where p: "i2c_send_bk dev d (i2c_start_bk s) = (r, s2)"
      by (cases "i2c_send_bk dev d (i2c_start_bk s)")
    define s3 where "s3 = (if r \<noteq> 0 then s2 else s2\<lparr>reported := reported s2 @ [word_of_int i]\<rparr>)"
    define s5 where "s5 = execute' dev (i2c_stop_bk s3)"
    have n: "nreads (i2c_start_bk s) = nreads s"
      by (simp add: i2c_start_bk_queued)
    have r: "r = 0 \<longleftrightarrow> ack_reply dev (nreads s)"
      using send_result_ack [of dev "i2c_start_bk s" d] send_result_not_ack [of dev "i2c_start_bk s" d]
      by (auto simp add: p n)
    have f2: "outputBuffer s2 = []"
      "sent s2 = sent s @ [start_seq @ send_cmd d] @
           (if ack_reply dev (nreads s) then [set_bits_cmd SDA_OUT] else [])"
      "nreads s2 = Suc (nreads s)" "reported s2 = reported s"
      using start_send_fields [OF "1.prems"(1), of dev d] by (simp_all add: p)
    have f3: "outputBuffer s3 = []" "sent s3 = sent s2" "nreads s3 = nreads s2"
      "reported s3 = reported s @ (if ack_reply dev (nreads s) then [word_of_int i] else [])"
      by (simp_all add: s3_def f2 r)
    have f5: "outputBuffer s5 = []" "sent s5 = sent s3 @ [stop_seq]" "nreads s5 = nreads s3"
      "reported s5 = reported s3"
      unfolding s5_def using stop_execute_fields [OF f3(1), of dev] by simp_all
    have step: "main_i2c_scan dev i s = main_i2c_scan dev (i + 1) s5"
      using True
      by (subst main_i2c_scan.simps) (simp add: Let_def d_def [symmetric] p s3_def s5_def)
    have ih: "outputBuffer (main_i2c_scan dev (i + 1) s5) = [] \<and>
         nreads (main_i2c_scan dev (i + 1) s5) = nreads s5 + nat (0x7f - (i + 1)) \<and>
         reported (main_i2c_scan dev (i + 1) s5) =
           reported s5 @ map word_of_int (filter (\<lambda>k. ack_reply dev (nreads s5 + nat (k - (i + 1)))) [i + 1..0x7e]) \<and>
         sent (main_i2c_scan dev (i + 1) s5) =
           sent s5 @ concat (map (\<lambda>k. [start_seq @ send_cmd (word_of_int (READ k))] @
                                      (if ack_reply dev (nreads s5 + nat (k - (i + 1)))
                                       then [set_bits_cmd SDA_OUT] else []) @ [stop_seq]) [i + 1..0x7e])"
      using "1.IH" [OF True refl refl p [unfolded d_def, symmetric] s3_def refl s5_def] f5(1) "1.prems"(2)
      by simp
    have idx: "nreads s5 + nat (k - (i + 1)) = nreads s + nat (k - i)" if "k \<in> set [i + 1..0x7e]" for k
      using that by (simp add: f5 f3 f2) linarith
    have u: "[i..0x7e] = i # [i + 1..0x7e]"
      using True by (intro upto_step2) simp
    have fl: "filter (\<lambda>k. ack_reply dev (nreads s5 + nat (k - (i + 1)))) [i + 1..0x7e] =
              filter (\<lambda>k. ack_reply dev (nreads s + nat (k - i))) [i + 1..0x7e]"
      by (rule filter_cong, rule refl, simp only: idx)
    have mp: "map (\<lambda>k. [start_seq @ send_cmd (word_of_int (READ k))] @
                 (if ack_reply dev (nreads s5 + nat (k - (i + 1))) then [set_bits_cmd SDA_OUT] else []) @
                 [stop_seq]) [i + 1..0x7e] =
              map (\<lambda>k. [start_seq @ send_cmd (word_of_int (READ k))] @
                 (if ack_reply dev (nreads s + nat (k - i)) then [set_bits_cmd SDA_OUT] else []) @
                 [stop_seq]) [i + 1..0x7e]"
      by (rule map_cong, rule refl, simp only: idx)
    have nn: "nreads s5 + nat (0x7f - (i + 1)) = nreads s + nat (0x7f - i)"
      using True "1.prems"(2) by (simp add: f5 f3 f2)
    show ?thesis
      unfolding step using ih
      by (simp only: fl mp nn) (simp add: u f5 f3 f2 d_def)
  qed
qed

lemma probe_byte_neq:
  assumes "0 \<le> k" and "k \<le> 0x7e"
  shows "(word_of_int (READ k) :: byte) \<noteq> word_of_int (READ 0x7f)"
    and "(word_of_int k :: byte) \<noteq> 0x7f"
proof -
  have "uint (word_of_int (READ k) :: byte) = 2 * k + 1"
    unfolding READ_arith using assms by (intro uint_byte_of_int) linarith+
  moreover have "uint (word_of_int (READ 0x7f) :: byte) = 255"
    by (simp add: READ_arith)
  ultimately show "(word_of_int (READ k) :: byte) \<noteq> word_of_int (READ 0x7f)"
    using assms by auto
  have "uint (word_of_int k :: byte) = k"
    using assms by (intro uint_byte_of_int) linarith+
  moreover have "uint (0x7f :: byte) = 127"
    by simp
  ultimately show "(word_of_int k :: byte) \<noteq> 0x7f"
    using assms by auto
qed

lemma divisor_bytes:
  "(ucast (dwClockDivisor speed_khz AND 0xFF) :: byte) = (if speed_khz = 400 then 0x4A else 0x2B)"
  "(ucast (drop_bit 8 (dwClockDivisor speed_khz) AND 0xFF) :: byte) = (if speed_khz = 400 then 0x00 else 0x01)"
  by (simp_all add: dwClockDivisor_def)

lemma setup_ok_scripted: "setup_ok (scripted_device replies)"
  by (simp add: setup_ok_def scripted_device_def FT_OK_def)

lemma upto_as_upt: "[0..int n - 1] = map int [0..<n]"
proof (induction n)
  case 0
  then show ?case by simp
next
  case (Suc n)
  have "[0..int (Suc n) - 1] = [0..int n - 1] @ [int n]"
    using upto_rec2 [of 0 "int n"] by simp
  then show ?case
    by (simp add: Suc)
qed

lemma read_cmd_nat:
  "read_cmd (int n) = concat (map (\<lambda>i. read_group (Suc i = n)) [0..<n]) @ [SEND_IMMEDIATE]"
proof -
  have "(int i = int n - 1) = (Suc i = n)" for i
    by auto
  then show ?thesis
    by (simp add: read_cmd_def upto_as_upt comp_def)
qed

lemma length_read_group: "length (read_group f) = 6"
  by (simp add: read_group_def)

lemma length_concat_groups: "length (concat (map (\<lambda>i. read_group (g i)) [0..<n])) = 6 * n"
  by (induction n) (simp_all add: length_read_group)

lemma nth_concat_groups:
  "i < n \<Longrightarrow> j < 6 \<Longrightarrow> concat (map (\<lambda>i. read_group (g i)) [0..<n]) ! (6 * i + j) = read_group (g i) ! j"
proof (induction n)
  case 0
  then show ?case by simp
next
  case (Suc n)
  show ?case
  proof (cases "i < n")
    case True
    then have "6 * i + j < 6 * n"
      using Suc.prems(2) by simp
    then show ?thesis
      using Suc.IH [OF True Suc.prems(2)] by (simp add: nth_append length_concat_groups)
  next
    case False
    then have "i = n"
      using Suc.prems(1) by simp
    then show ?thesis
      by (simp add: nth_append length_concat_groups)
  qed
qed

lemma read_bytes_acks_in_range:
  assumes "outputBuffer s = []" and "1 \<le> n" and "n \<le> 170"
  shows "sent (snd (read_bytes dev (int n) s)) = sent s @ [read_cmd (int n)] \<and>
         length (read_cmd (int n)) = 6 * n + 1 \<and>
         (\<forall>i < n. read_cmd (int n) ! (6 * i) = MSB_FALLING_EDGE_CLOCK_BYTE_IN \<and>
                   read_cmd (int n) ! (6 * i + 3) = MSB_FALLING_EDGE_CLOCK_BIT_OUT \<and>
                   read_cmd (int n) ! (6 * i + 5) = (if i = n - 1 then 0x80 else 0x00)) \<and>
         read_cmd (int n) ! (6 * n) = SEND_IMMEDIATE"
proof -
  have len: "length (read_cmd (int n)) = 6 * n + 1"
    by (simp add: read_cmd_nat length_concat_groups)
  have "outputBuffer (queued (read_cmd (int n)) s) = read_cmd (int n)"
    using assms by (simp add: outputBuffer_queued_fits len)
  then have a: "sent (snd (read_bytes dev (int n) s)) = sent s @ [read_cmd (int n)]"
    using assms(2) by (simp add: read_bytes_fields)
  have nth: "read_cmd (int n) ! (6 * i + j) = read_group (Suc i = n) ! j" if "i < n" "j < 6" for i j
    using that nth_concat_groups [of i n j "\<lambda>i. Suc i = n"]
    by (simp add: read_cmd_nat nth_append length_concat_groups)
  have b: "read_cmd (int n) ! (6 * i) = MSB_FALLING_EDGE_CLOCK_BYTE_IN \<and>
           read_cmd (int n) ! (6 * i + 3) = MSB_FALLING_EDGE_CLOCK_BIT_OUT \<and>
           read_cmd (int n) ! (6 * i + 5) = (if i = n - 1 then 0x80 else 0x00)" if "i < n" for i
  proof -
    have "(Suc i = n) = (i = n - 1)"
      using that by auto
    then show ?thesis
      using nth [OF that, of 0] nth [OF that, of 3] nth [OF that, of 5]
      by (simp add: read_group_def)
  qed
  have c: "read_cmd (int n) ! (6 * n) = SEND_IMMEDIATE"
    by (simp add: read_cmd_nat nth_append length_concat_groups)
  show ?thesis
    using a len b c by blast
qed

lemma upt_split_at: "m < n \<Longrightarrow> [0..<n] = [0..<m] @ m # [Suc m..<n]"
proof -
  assume a: "m < n"
  then obtain k where k: "n = m + k"
    using less_imp_add_positive by blast
  have "[0..<m + k] = [0..<m] @ [m..<m + k]"
    by (rule upt_add_eq_append) simp
  moreover have "[m..<n] = m # [Suc m..<n]"
    using a by (rule upt_conv_Cons)
  ultimately show ?thesis
    by (simp only: k)
qed

lemma read_cmd_overflow:
  assumes "171 \<le> n"
  shows "take 1023 (read_cmd (int n)) =
           concat (replicate 170 (read_group False)) @ [MSB_FALLING_EDGE_CLOCK_BYTE_IN, 0x00, 0x00]"
proof -
  define m :: nat where "m = 170"
  have mn: "m < n"
    using assms by (simp add: m_def)
  have "map (\<lambda>i. read_group (Suc i = n)) [0..<m] = map (\<lambda>i. read_group False) [0..<m]"
    using mn by (intro map_cong) auto
  also have "\<dots> = replicate m (read_group False)"
    by (simp add: map_replicate_const)
  finally have mp: "map (\<lambda>i. read_group (Suc i = n)) [0..<m] = replicate m (read_group False)" .
  have l: "length (concat (replicate m (read_group False))) = 1020"
    by (simp add: length_concat sum_list_replicate length_read_group m_def)
  have "read_cmd (int n) = concat (replicate m (read_group False)) @
      (read_group (Suc m = n) @ concat (map (\<lambda>i. read_group (Suc i = n)) [Suc m..<n]) @ [SEND_IMMEDIATE])"
    by (simp only: read_cmd_nat upt_split_at [OF mn] map_append concat_append list.map concat.simps mp
        append_assoc)
  then have "take 1023 (read_cmd (int n)) = concat (replicate m (read_group False)) @
      take 3 (read_group (Suc m = n) @ concat (map (\<lambda>i. read_group (Suc i = n)) [Suc m..<n]) @ [SEND_IMMEDIATE])"
    using l by simp
  then show ?thesis
    by (simp add: read_group_def m_def)
qed

lemma start_state_fields:
  "outputBuffer (i2c_start_bk idle_state) = start_seq" "sent (i2c_start_bk idle_state) = []"
  "nreads (i2c_start_bk idle_state) = 0"
  by (simp_all add: i2c_start_bk_queued outputBuffer_queued_fits length_start_seq idle_state_fields)

lemma probe_0x7F_not_written:
  "start_seq @ send_cmd (word_of_int (READ 0x7f)) \<notin>
     set (concat (map (\<lambda>k. [start_seq @ send_cmd (word_of_int (READ k))] @
                           (if g k then [set_bits_cmd SDA_OUT] else []) @ [stop_seq]) [0..0x7e]))"
proof
  have d: "xs \<noteq> ys" if "length xs \<noteq> length ys" for xs ys :: "byte list"
    using that by auto
  have ne: "start_seq @ send_cmd (word_of_int (READ 0x7f)) \<noteq> set_bits_cmd SDA_OUT"
    "start_seq @ send_cmd (word_of_int (READ 0x7f)) \<noteq> stop_seq"
    by (rule d, simp add: length_start_seq length_send_cmd length_stop_seq set_bits_cmd_def)+
  have inj: "send_cmd a = send_cmd b \<longleftrightarrow> a = b" for a b
    by (simp add: send_cmd_def)
  assume "start_seq @ send_cmd (word_of_int (READ 0x7f)) \<in>
     set (concat (map (\<lambda>k. [start_seq @ send_cmd (word_of_int (READ k))] @
                           (if g k then [set_bits_cmd SDA_OUT] else []) @ [stop_seq]) [0..0x7e]))"
  then obtain k where k: "0 \<le> k" "k \<le> 0x7e"
    and m: "start_seq @ send_cmd (word_of_int (READ 0x7f)) \<in>
              {start_seq @ send_cmd (word_of_int (READ k)), set_bits_cmd SDA_OUT, stop_seq}"
    by (auto split: if_splits)
  with ne have "send_cmd (word_of_int (READ 0x7f)) = send_cmd (word_of_int (READ k))"
    by simp
  then have "(word_of_int (READ k) :: byte) = word_of_int (READ 0x7f)"
    by (simp only: inj)
  with probe_byte_neq(1) [OF k] show False
    by contradiction
qed

lemma one_slave_device_replies: "ack_reply one_slave_device k \<longleftrightarrow> k = 0x3C"
  by (simp add: ack_reply_def one_slave_device_def scripted_device_def FT_OK_def)

lemma filter_single: "filter (\<lambda>k. nat k = 0x3C) [0..0x7e] = [0x3C]"
  by code_simp

section \<open>The claims\<close>

text \<open>
  The theorems about transactions and the bus scan start from an empty command buffer.
  That is the buffer they find in \<^verbatim>\<open>main\<close>: the globals start out zeroed, and
  \<^verbatim>\<open>ftdi_configure_i2c\<close>, the bus scan and \<^verbatim>\<open>i2c_send_bk\<close> all end with \<^verbatim>\<open>execute\<close>
  (lemmas \<open>ftdi_configure_i2c_log\<close>, \<open>main_i2c_scan_effect\<close> and
  \<open>i2c_send_bk_fields\<close>).
\<close>

subsection \<open>Address bytes\<close>

text \<open>
  C8. For a 7-bit address \<open>a\<close> the macro \<^verbatim>\<open>READ\<close> gives \<open>2a + 1\<close>, that is
  \<^verbatim>\<open>(a<<1)|1\<close>, and \<^verbatim>\<open>WRITE\<close> gives \<open>2a\<close>, that is \<^verbatim>\<open>a<<1\<close>; both fit the
  \<^verbatim>\<open>unsigned char\<close> that \<^verbatim>\<open>i2c_send_bk\<close> takes, so the byte on the wire is that value.
  The address read by option \<^verbatim>\<open>-a\<close> is cut to its low 7 bits (\<open>v mod 128\<close>) before
  it reaches the macros, so the address byte sent for a supplied value \<open>v\<close> is
  \<open>2 (v mod 128) + 1\<close> for a read and \<open>2 (v mod 128)\<close> for a write.
\<close>

theorem address_encoding:
  assumes "0 \<le> a" and "a \<le> 0x7F"
  shows "READ a = 2 * a + 1 \<and> WRITE a = 2 * a \<and>
         uint (word_of_int (READ a) :: byte) = 2 * a + 1 \<and>
         uint (word_of_int (WRITE a) :: byte) = 2 * a \<and>
         main_opt_a v = int (v mod 128) \<and> 0 \<le> main_opt_a v \<and> main_opt_a v \<le> 0x7F \<and>
         uint (word_of_int (READ (uint (word_of_int (main_opt_a v) :: byte))) :: byte) =
           2 * int (v mod 128) + 1 \<and>
         uint (word_of_int (WRITE (uint (word_of_int (main_opt_a v) :: byte))) :: byte) =
           2 * int (v mod 128)"
proof -
  have r: "uint (word_of_int (READ x) :: byte) = 2 * x + 1"
    if "0 \<le> x" "x \<le> 0x7F" for x :: int
    unfolding READ_arith using that by (intro uint_byte_of_int) linarith+
  have w: "uint (word_of_int (WRITE x) :: byte) = 2 * x"
    if "0 \<le> x" "x \<le> 0x7F" for x :: int
    unfolding WRITE_arith using that by (intro uint_byte_of_int) linarith+
  have u: "uint (word_of_int x :: byte) = x"
    if "0 \<le> x" "x \<le> 0x7F" for x :: int
    using that by (intro uint_byte_of_int) linarith+
  have m: "0 \<le> int (v mod 128)" "int (v mod 128) \<le> 0x7F"
    by simp_all
  have "uint (word_of_int (READ (uint (word_of_int (main_opt_a v) :: byte))) :: byte) =
           2 * int (v mod 128) + 1"
    by (simp only: main_opt_a_mod u [OF m] r [OF m])
  moreover have "uint (word_of_int (WRITE (uint (word_of_int (main_opt_a v) :: byte))) :: byte) =
           2 * int (v mod 128)"
    by (simp only: main_opt_a_mod u [OF m] w [OF m])
  moreover have "0 \<le> main_opt_a v" "main_opt_a v \<le> 0x7F"
    using m by (simp_all only: main_opt_a_mod)
  ultimately show ?thesis
    using r [OF assms] w [OF assms]
    by (simp only: READ_arith WRITE_arith main_opt_a_mod simp_thms)
qed

theorem address_encoding_witness:
  "READ 0x3C = 0x79 \<and> WRITE 0x3C = 0x78 \<and>
   uint (word_of_int (READ 0x3C) :: byte) = 0x79 \<and>
   uint (word_of_int (WRITE 0x3C) :: byte) = 0x78 \<and>
   main_opt_a 0xBC = 0x3C \<and>
   uint (word_of_int (READ (uint (word_of_int (main_opt_a 0xBC) :: byte))) :: byte) = 0x79 \<and>
   uint (word_of_int (WRITE (uint (word_of_int (main_opt_a 0xBC) :: byte))) :: byte) = 0x78"
proof -
  have "(0 :: int) \<le> 0x3C" and "(0x3C :: int) \<le> 0x7F"
    by simp_all
  from address_encoding [OF this, of "0xBC"] show ?thesis
    by simp
qed

subsection \<open>Device set-up\<close>

text \<open>
  C9. \<^verbatim>\<open>ftdi_configure_i2c\<close> maps 100 kHz to the divisor \<open>0x012B\<close> and 400 kHz to
  \<open>0x004A\<close>; every other speed gets the 100 kHz divisor \<open>0x012B\<close> (the mapping is
  total, with this default). When the device opens and the set-up calls succeed, the
  second write of the configuration carries \<^verbatim>\<open>SET_CLK_DIV\<close> followed by the low byte and
  then the high byte of the divisor: \<open>0x4A, 0x00\<close> for 400 kHz and \<open>0x2B, 0x01\<close>
  otherwise.
\<close>

theorem clock_divisor_mapping:
  assumes "setup_ok dev" and "outputBuffer s = []"
  shows "dwClockDivisor 100 = 0x012B \<and> dwClockDivisor 400 = 0x004A \<and>
         dwClockDivisor speed_khz = (if speed_khz = 400 then 0x004A else 0x012B) \<and>
         fst (ftdi_configure_i2c dev speed_khz s) = 0 \<and>
         sent (snd (ftdi_configure_i2c dev speed_khz s)) =
           sent s @
           [[DISABLE_CLK_DIV_5, DISABLE_CLK_DIV_5, ENABLE_3_PHASE_CLK],
            [SET_BITS_LOW_BYTE, SDA_OUT OR SCL, SDA_OUT OR SCL, SET_CLK_DIV] @
              (if speed_khz = 400 then [0x4A, 0x00] else [0x2B, 0x01]),
            [OPEN_DRAIN, SDA_OUT OR SCL, 0x00],
            [DISABLE_LOOPBACK]]"
  using ftdi_configure_i2c_log [OF assms, of speed_khz]
  by (simp add: divisor_bytes) (simp add: dwClockDivisor_def)

theorem clock_divisor_mapping_witness:
  "sent (snd (ftdi_configure_i2c (scripted_device (\<lambda>k. (FT_OK, []))) 400 idle_state)) ! 1 =
     [0x80, 0x03, 0x03, 0x86, 0x4A, 0x00] \<and>
   sent (snd (ftdi_configure_i2c (scripted_device (\<lambda>k. (FT_OK, []))) 100 idle_state)) ! 1 =
     [0x80, 0x03, 0x03, 0x86, 0x2B, 0x01] \<and>
   sent (snd (ftdi_configure_i2c (scripted_device (\<lambda>k. (FT_OK, []))) 250 idle_state)) ! 1 =
     [0x80, 0x03, 0x03, 0x86, 0x2B, 0x01]"
  using clock_divisor_mapping [OF setup_ok_scripted [of "\<lambda>k. (FT_OK, [])"] idle_state_fields(1),
      where speed_khz = 400]
    clock_divisor_mapping [OF setup_ok_scripted [of "\<lambda>k. (FT_OK, [])"] idle_state_fields(1),
      where speed_khz = 100]
    clock_divisor_mapping [OF setup_ok_scripted [of "\<lambda>k. (FT_OK, [])"] idle_state_fields(1),
      where speed_khz = 250]
  by (simp add: idle_state_fields lines_high SET_BITS_LOW_BYTE_def SET_CLK_DIV_def)

text \<open>
  C1 (the code departs from the claim). The claim has the configurator send the opcode
  \<^verbatim>\<open>DISABLE_ADAPTIVE_CLK\<close> (\<open>0x97\<close>). The source, under the comment
  \<^verbatim>\<open>// Disable adaptive clocking\<close>, appends \<^verbatim>\<open>DISABLE_CLK_DIV_5\<close> a second time
  instead. So the first write of a successful configuration is
  \<open>0x8A, 0x8A, 0x8C\<close>, and the byte \<open>0x97\<close> occurs in none of the writes of the
  configuration, for every device and every speed.
\<close>

theorem configure_sends_no_disable_adaptive_clk:
  assumes "setup_ok dev" and "outputBuffer s = []"
  shows "fst (ftdi_configure_i2c dev speed_khz s) = 0 \<and>
         sent (snd (ftdi_configure_i2c dev speed_khz s)) ! length (sent s) =
           [DISABLE_CLK_DIV_5, DISABLE_CLK_DIV_5, ENABLE_3_PHASE_CLK] \<and>
         DISABLE_ADAPTIVE_CLK \<notin>
           set (concat (drop (length (sent s)) (sent (snd (ftdi_configure_i2c dev speed_khz s)))))"
  using ftdi_configure_i2c_log [OF assms, of speed_khz]
  by (simp add: divisor_bytes DISABLE_ADAPTIVE_CLK_def DISABLE_CLK_DIV_5_def ENABLE_3_PHASE_CLK_def
      SET_BITS_LOW_BYTE_def SET_CLK_DIV_def OPEN_DRAIN_def DISABLE_LOOPBACK_def lines_high)

theorem configure_sends_no_disable_adaptive_clk_witness:
  "sent (snd (ftdi_configure_i2c (scripted_device (\<lambda>k. (FT_OK, []))) 100 idle_state)) ! 0 =
     [0x8A, 0x8A, 0x8C] \<and>
   0x97 \<notin> set (concat (sent (snd (ftdi_configure_i2c (scripted_device (\<lambda>k. (FT_OK, []))) 100 idle_state))))"
proof -
  have "sent (snd (ftdi_configure_i2c (scripted_device (\<lambda>k. (FT_OK, []))) 100 idle_state)) !
          length (sent idle_state) = [DISABLE_CLK_DIV_5, DISABLE_CLK_DIV_5, ENABLE_3_PHASE_CLK]"
    and "DISABLE_ADAPTIVE_CLK \<notin> set (concat (drop (length (sent idle_state))
          (sent (snd (ftdi_configure_i2c (scripted_device (\<lambda>k. (FT_OK, []))) 100 idle_state)))))"
    using configure_sends_no_disable_adaptive_clk [OF setup_ok_scripted [of "\<lambda>k. (FT_OK, [])"]
        idle_state_fields(1), where speed_khz = 100]
    by blast+
  then show ?thesis
    by (simp add: idle_state_fields DISABLE_ADAPTIVE_CLK_def DISABLE_CLK_DIV_5_def ENABLE_3_PHASE_CLK_def)
qed

subsection \<open>Sending a byte\<close>

text \<open>
  C7 (corrected). \<^verbatim>\<open>i2c_send_bk\<close> reads one reply byte after its command batch. When
  that read fails or delivers no byte the result is \<open>-2\<close> (I/O error); otherwise, when
  the low bit of the byte is set, the result is \<open>-1\<close> (Nak); otherwise it is \<open>0\<close>
  (Ack). Each result occurs for exactly one kind of reply, so the three are told apart,
  and the result depends on nothing but the reply: the status of the \<^verbatim>\<open>FT_Write\<close> inside
  \<^verbatim>\<open>execute\<close> is not looked at. Only for the result \<open>0\<close> a second batch follows, the
  \<^verbatim>\<open>set_bits(SDA_OUT)\<close> that drives SDA high as an output with SCL low; in the other two
  cases the command batch is the only write. This holds from every state, whatever the
  command buffer holds on entry (at the address bytes it holds the start sequence): the
  first write is the buffer followed by as much of the commands of \<^verbatim>\<open>i2c_send_bk\<close> as
  \<^verbatim>\<open>append\<close> accepts.
\<close>

theorem i2c_send_bk_three_outcomes:
  assumes "read_reply dev (nreads s) = (st, data)"
  shows "(let (r, s') = i2c_send_bk dev d s in
           (r = - 2 \<longleftrightarrow> (st \<noteq> FT_OK \<or> data = [])) \<and>
           (r = - 1 \<longleftrightarrow> (st = FT_OK \<and> data \<noteq> [] \<and> hd data AND 0x01 \<noteq> 0)) \<and>
           (r = 0 \<longleftrightarrow> (st = FT_OK \<and> data \<noteq> [] \<and> hd data AND 0x01 = 0)) \<and>
           sent s' =
             sent s @
             [outputBuffer s @ take (sizeof_outputBuffer - 1 - length (outputBuffer s)) (send_cmd d)] @
             (if r = 0 then [[SET_BITS_LOW_BYTE, SDA_OUT, SDA_OUT OR SCL]] else []) \<and>
           outputBuffer s' = [])"
proof -
  obtain r s' where p: "i2c_send_bk dev d s = (r, s')"
    by (cases "i2c_send_bk dev d s")
  have r: "r = (if st \<noteq> FT_OK \<or> data = [] then - 2 else if hd data AND 0x01 \<noteq> 0 then - 1 else 0)"
    using i2c_send_bk_result [of dev d s]
    by (simp add: p assms io_error_reply_def nak_reply_def)
  have a: "ack_reply dev (nreads s) \<longleftrightarrow> r = 0"
    by (auto simp add: r ack_reply_def assms)
  have q: "outputBuffer (queued (send_cmd d) s) =
           outputBuffer s @ take (sizeof_outputBuffer - 1 - length (outputBuffer s)) (send_cmd d)"
    by (simp add: queued_def)
  have f: "sent s' = sent s @
             [outputBuffer s @ take (sizeof_outputBuffer - 1 - length (outputBuffer s)) (send_cmd d)] @
             (if r = 0 then [set_bits_cmd SDA_OUT] else [])"
    "outputBuffer s' = []"
    using i2c_send_bk_fields(1,2) [of dev d s] by (simp_all add: p q a)
  show ?thesis
    using f by (auto simp add: p r set_bits_cmd_def)
qed

theorem i2c_send_bk_three_outcomes_witness:
  "fst (i2c_send_bk (scripted_device (\<lambda>k. (FT_OK, [0x00]))) 0x78 (i2c_start_bk idle_state)) = 0 \<and>
   sent (snd (i2c_send_bk (scripted_device (\<lambda>k. (FT_OK, [0x00]))) 0x78 (i2c_start_bk idle_state))) =
     [start_seq @ send_cmd 0x78, [0x80, 0x02, 0x03]] \<and>
   fst (i2c_send_bk (scripted_device (\<lambda>k. (FT_OK, [0x01]))) 0x78 (i2c_start_bk idle_state)) = - 1 \<and>
   sent (snd (i2c_send_bk (scripted_device (\<lambda>k. (FT_OK, [0x01]))) 0x78 (i2c_start_bk idle_state))) =
     [start_seq @ send_cmd 0x78] \<and>
   fst (i2c_send_bk (scripted_device (\<lambda>k. (4, []))) 0x78 idle_state) = - 2 \<and>
   sent (snd (i2c_send_bk (scripted_device (\<lambda>k. (4, []))) 0x78 idle_state)) =
     [send_cmd 0x78]"
  using i2c_send_bk_three_outcomes [where dev = "scripted_device (\<lambda>k. (FT_OK, [0x00]))"
      and s = "i2c_start_bk idle_state" and st = FT_OK and data = "[0x00]" and d = "0x78"]
    i2c_send_bk_three_outcomes [where dev = "scripted_device (\<lambda>k. (FT_OK, [0x01]))"
      and s = "i2c_start_bk idle_state" and st = FT_OK and data = "[0x01]" and d = "0x78"]
    i2c_send_bk_three_outcomes [where dev = "scripted_device (\<lambda>k. (4, []))" and s = idle_state
      and st = 4 and data = "[]" and d = "0x78"]
  by (simp add: scripted_device_def start_state_fields idle_state_fields FT_OK_def lines_high
      SET_BITS_LOW_BYTE_def length_start_seq length_send_cmd sizeof_outputBuffer_def
      split: prod.splits)

text \<open>
  The claim as it was stated counts every transport failure as an I/O error. A failed
  write is not one: on a device whose writes all fail and whose reply is an acknowledge,
  \<^verbatim>\<open>execute\<close> returns the failure, \<^verbatim>\<open>i2c_send_bk\<close> drops it (as every caller of
  \<^verbatim>\<open>execute\<close> in the program does) and returns 0.
\<close>

theorem failed_write_reported_as_ack:
  "fst (FT_Write failing_write_device (start_seq @ send_cmd 0x78) (i2c_start_bk idle_state)) \<noteq> FT_OK \<and>
   fst (i2c_send_bk failing_write_device 0x78 (i2c_start_bk idle_state)) = 0 \<and>
   fst (execute failing_write_device (queued (send_cmd 0x78) (i2c_start_bk idle_state))) \<noteq> FT_OK"
proof -
  have "ack_reply failing_write_device (nreads (i2c_start_bk idle_state))"
    by (simp add: ack_reply_def failing_write_device_def scripted_device_def)
  then have "fst (i2c_send_bk failing_write_device 0x78 (i2c_start_bk idle_state)) = 0"
    by (rule send_result_ack)
  moreover have "fst (FT_Write failing_write_device (start_seq @ send_cmd 0x78) (i2c_start_bk idle_state)) \<noteq> FT_OK"
    by (simp add: FT_Write_def failing_write_device_def FT_OK_def)
  moreover have "outputBuffer (queued (send_cmd 0x78) (i2c_start_bk idle_state)) \<noteq> []"
    by (rule queued_nonempty) (simp add: send_cmd_def)
  then have "fst (execute failing_write_device (queued (send_cmd 0x78) (i2c_start_bk idle_state))) \<noteq> FT_OK"
    by (simp add: execute_def FT_Write_def Let_def failing_write_device_def FT_OK_def)
  ultimately show ?thesis
    by simp
qed

subsection \<open>Reading bytes\<close>

text \<open>
  C6 (the code departs from the claim). The loop of \<^verbatim>\<open>read_bytes(n)\<close> hands \<^verbatim>\<open>append\<close>
  an acknowledge byte \<open>0x00\<close> for every round but the last and \<open>0x80\<close> for the last.
  For \<open>1 \<le> n \<le> 170\<close> all of them are queued and sent (lemma
  \<open>read_bytes_acks_in_range\<close>). But \<^verbatim>\<open>append\<close> drops every byte once the buffer holds
  1023 bytes, and \<^verbatim>\<open>read_bytes\<close> does not look at its result: from \<open>n = 171\<close> on, the
  batch that is sent is 170 rounds with acknowledge \<open>0x00\<close> followed by the first three
  bytes of round 170. It holds no \<open>0x80\<close>, so no Nak is queued for the last byte (nor any
  acknowledge bit for the bytes from index 170 on), and no \<^verbatim>\<open>SEND_IMMEDIATE\<close>; the result
  is still 0.
\<close>

theorem read_bytes_overflow_drops_nak:
  assumes "outputBuffer s = []" and "171 \<le> nbytes"
  shows "fst (read_bytes dev nbytes s) = 0 \<and>
         sent (snd (read_bytes dev nbytes s)) =
           sent s @ [concat (replicate 170 (read_group False)) @
                     [MSB_FALLING_EDGE_CLOCK_BYTE_IN, 0x00, 0x00]] \<and>
         length (last (sent (snd (read_bytes dev nbytes s)))) = 1023 \<and>
         0x80 \<notin> set (last (sent (snd (read_bytes dev nbytes s)))) \<and>
         SEND_IMMEDIATE \<notin> set (last (sent (snd (read_bytes dev nbytes s))))"
proof -
  have pos: "0 < nbytes"
    using assms(2) by simp
  have n: "nbytes = int (nat nbytes)" and "171 \<le> nat nbytes"
    using assms(2) by simp_all
  then have t: "take 1023 (read_cmd nbytes) =
      concat (replicate 170 (read_group False)) @ [MSB_FALLING_EDGE_CLOCK_BYTE_IN, 0x00, 0x00]"
    using read_cmd_overflow [of "nat nbytes"] by simp
  have q: "outputBuffer (queued (read_cmd nbytes) s) = take 1023 (read_cmd nbytes)"
    using assms(1) by (simp add: queued_def sizeof_outputBuffer_def)
  have a: "sent (snd (read_bytes dev nbytes s)) =
           sent s @ [concat (replicate 170 (read_group False)) @
                     [MSB_FALLING_EDGE_CLOCK_BYTE_IN, 0x00, 0x00]]"
    using read_bytes_fields(3) [OF pos, of dev s] by (simp only: q t)
  have l: "length (concat (replicate 170 (read_group False))) = 1020"
    by (simp add: length_concat sum_list_replicate length_read_group)
  have m: "0x80 \<notin> set (read_group False)" "SEND_IMMEDIATE \<notin> set (read_group False)"
    by (simp_all add: read_group_def MSB_FALLING_EDGE_CLOCK_BYTE_IN_def
        MSB_FALLING_EDGE_CLOCK_BIT_OUT_def SEND_IMMEDIATE_def)
  have ne: "MSB_FALLING_EDGE_CLOCK_BYTE_IN \<noteq> 0x80" "MSB_FALLING_EDGE_CLOCK_BYTE_IN \<noteq> SEND_IMMEDIATE"
    "SEND_IMMEDIATE \<noteq> 0"
    by (simp_all add: MSB_FALLING_EDGE_CLOCK_BYTE_IN_def SEND_IMMEDIATE_def)
  show ?thesis
    using read_bytes_fields(1) [OF pos, of dev s] ne
    by (simp add: a l m)
qed

theorem read_bytes_overflow_drops_nak_witness:
  "length (last (sent (snd (read_bytes (scripted_device (\<lambda>k. (FT_OK, []))) 171 idle_state)))) = 1023 \<and>
   0x80 \<notin> set (last (sent (snd (read_bytes (scripted_device (\<lambda>k. (FT_OK, []))) 171 idle_state)))) \<and>
   0x87 \<notin> set (last (sent (snd (read_bytes (scripted_device (\<lambda>k. (FT_OK, []))) 171 idle_state))))"
proof -
  have "(171 :: int) \<le> 171"
    by simp
  from read_bytes_overflow_drops_nak [OF idle_state_fields(1) this, of "scripted_device (\<lambda>k. (FT_OK, []))"]
  have "length (last (sent (snd (read_bytes (scripted_device (\<lambda>k. (FT_OK, []))) 171 idle_state)))) = 1023"
    and "0x80 \<notin> set (last (sent (snd (read_bytes (scripted_device (\<lambda>k. (FT_OK, []))) 171 idle_state))))"
    and "SEND_IMMEDIATE \<notin> set (last (sent (snd (read_bytes (scripted_device (\<lambda>k. (FT_OK, []))) 171 idle_state))))"
    by blast+
  then show ?thesis
    by (simp add: SEND_IMMEDIATE_def)
qed

subsection \<open>Transactions\<close>

text \<open>
  C10. A request with no write payload and a read length of 0 does nothing: the state,
  and with it the command buffer and the log of writes, is unchanged, no read is made,
  and the result is 0.
\<close>

theorem empty_request_does_nothing:
  "i2c_transaction dev slave_addr 0 [] s = (0, s)"
  by (simp add: i2c_transaction_def write_block_def read_block_def)

theorem empty_request_does_nothing_witness:
  "i2c_transaction (scripted_device (\<lambda>k. (FT_OK, [0x00]))) 0x3C 0 [] idle_state = (0, idle_state)"
  by (rule empty_request_does_nothing)

text \<open>
  C5. When the slave does not acknowledge the address byte of a transaction with a
  write payload, the chip receives exactly two writes, the start condition with the
  WRITE address byte and the stop condition, so no payload byte is sent; one reply is read,
  and the result is \<^verbatim>\<open>SLAVE_NAK_ADDR\<close>. This holds for every read length, a write-only
  request (\<open>nread = 0\<close>) among them.
\<close>

theorem write_addr_nak_stops:
  assumes "outputBuffer s = []" and "wbuf \<noteq> []" and "nak_reply dev (nreads s)"
  shows "fst (i2c_transaction dev slave_addr nread wbuf s) = SLAVE_NAK_ADDR \<and>
         sent (snd (i2c_transaction dev slave_addr nread wbuf s)) =
           sent s @ [start_seq @ send_cmd (word_of_int (WRITE (uint slave_addr))), stop_seq] \<and>
         nreads (snd (i2c_transaction dev slave_addr nread wbuf s)) = Suc (nreads s) \<and>
         outputBuffer (snd (i2c_transaction dev slave_addr nread wbuf s)) = []"
proof -
  obtain r1 s1 where w: "write_block dev slave_addr wbuf s = (r1, s1)"
    by (cases "write_block dev slave_addr wbuf s")
  have "\<not> ack_reply dev (nreads s)"
    using assms(3) reply_cases(4) by blast
  from write_block_nak [OF assms(1,2) this, of slave_addr]
  show ?thesis
    by (simp add: i2c_transaction_def w)
qed

theorem write_addr_nak_stops_witness:
  "fst (i2c_transaction (scripted_device (\<lambda>k. (FT_OK, [0x01]))) 0x3C 0 [0x12, 0x34] idle_state) = - 2 \<and>
   sent (snd (i2c_transaction (scripted_device (\<lambda>k. (FT_OK, [0x01]))) 0x3C 0 [0x12, 0x34] idle_state)) =
     [start_seq @ send_cmd 0x78, stop_seq]"
  using write_addr_nak_stops [where s = idle_state and wbuf = "[0x12, 0x34]"
      and dev = "scripted_device (\<lambda>k. (FT_OK, [0x01]))" and slave_addr = "0x3C" and nread = 0]
  by (simp add: scripted_device_def idle_state_def nak_reply_def FT_OK_def WRITE_def SLAVE_NAK_ADDR_def)

text \<open>
  C4. A request with a non-empty write payload and a positive read length, on a bus that
  acknowledges both address bytes and every payload byte: the result is 0 and the chip
  receives the start condition with the WRITE address, each payload byte, a second start
  condition with the READ address, the read commands, and the stop condition. Among these
  writes there are exactly two start conditions and one stop condition, whatever the
  payload is.
\<close>

theorem write_then_read_two_starts_one_stop:
  assumes "outputBuffer s = []" and "wbuf \<noteq> []" and "0 < nread"
    and "\<forall>j \<le> Suc (length wbuf). ack_reply dev (nreads s + j)"
  shows "fst (i2c_transaction dev slave_addr nread wbuf s) = 0 \<and>
         sent (snd (i2c_transaction dev slave_addr nread wbuf s)) =
           sent s @
           [start_seq @ send_cmd (word_of_int (WRITE (uint slave_addr))), set_bits_cmd SDA_OUT] @
           concat (map (\<lambda>b. [send_cmd b, set_bits_cmd SDA_OUT]) wbuf) @
           [start_seq @ send_cmd (word_of_int (READ (uint slave_addr))), set_bits_cmd SDA_OUT,
            take (sizeof_outputBuffer - 1) (read_cmd nread), stop_seq] \<and>
         start_conditions (drop (length (sent s))
           (sent (snd (i2c_transaction dev slave_addr nread wbuf s)))) = 2 \<and>
         stop_conditions (drop (length (sent s))
           (sent (snd (i2c_transaction dev slave_addr nread wbuf s)))) = 1"
proof -
  obtain r1 s1 where w: "write_block dev slave_addr wbuf s = (r1, s1)"
    by (cases "write_block dev slave_addr wbuf s")
  have "\<forall>j \<le> length wbuf. ack_reply dev (nreads s + j)"
    using assms(4) by simp
  from write_block_all_ack [OF assms(1,2) this, of slave_addr]
  have f1: "r1 = None" "outputBuffer s1 = []"
    "sent s1 = sent s @ [start_seq @ send_cmd (word_of_int (WRITE (uint slave_addr))), set_bits_cmd SDA_OUT] @
           concat (map (\<lambda>b. [send_cmd b, set_bits_cmd SDA_OUT]) wbuf)"
    "nreads s1 = Suc (nreads s + length wbuf)"
    by (simp_all add: w)
  obtain r2 s2 where r: "read_block dev slave_addr nread s1 = (r2, s2)"
    by (cases "read_block dev slave_addr nread s1")
  have "ack_reply dev (nreads s1)"
    using assms(4) f1(4) by (metis add_Suc_right le_refl)
  from read_block_ack [OF f1(2) assms(3) this, of slave_addr]
  have f2: "r2 = None" "outputBuffer s2 = []"
    "sent s2 = sent s1 @ [start_seq @ send_cmd (word_of_int (READ (uint slave_addr))), set_bits_cmd SDA_OUT,
                     take (sizeof_outputBuffer - 1) (read_cmd nread)]"
    by (simp_all add: r)
  have t: "i2c_transaction dev slave_addr nread wbuf s = (0, execute' dev (i2c_stop_bk s2))"
    using assms(3) by (simp add: i2c_transaction_def w r f1 f2 Let_def)
  have log: "sent (snd (i2c_transaction dev slave_addr nread wbuf s)) =
           sent s @
           [start_seq @ send_cmd (word_of_int (WRITE (uint slave_addr))), set_bits_cmd SDA_OUT] @
           concat (map (\<lambda>b. [send_cmd b, set_bits_cmd SDA_OUT]) wbuf) @
           [start_seq @ send_cmd (word_of_int (READ (uint slave_addr))), set_bits_cmd SDA_OUT,
            take (sizeof_outputBuffer - 1) (read_cmd nread), stop_seq]"
    using stop_execute_fields [OF f2(2), of dev] by (simp add: t f1 f2)
  have "start_conditions (drop (length (sent s))
           (sent (snd (i2c_transaction dev slave_addr nread wbuf s)))) = 2"
    by (simp add: log start_conditions_def payload_no_conditions not_prefix_start_seq)
  moreover have "stop_conditions (drop (length (sent s))
           (sent (snd (i2c_transaction dev slave_addr nread wbuf s)))) = 1"
    by (simp add: log stop_conditions_def payload_no_conditions not_suffix_stop_seq)
  ultimately show ?thesis
    using log by (simp add: t)
qed

theorem write_then_read_two_starts_one_stop_witness:
  "fst (i2c_transaction (scripted_device (\<lambda>k. (FT_OK, [0x00]))) 0x3C 4 [0x00] idle_state) = 0 \<and>
   start_conditions (sent (snd (i2c_transaction (scripted_device (\<lambda>k. (FT_OK, [0x00]))) 0x3C 4 [0x00] idle_state))) = 2 \<and>
   stop_conditions (sent (snd (i2c_transaction (scripted_device (\<lambda>k. (FT_OK, [0x00]))) 0x3C 4 [0x00] idle_state))) = 1"
proof -
  have "\<forall>j \<le> Suc (length [0x00 :: byte]).
          ack_reply (scripted_device (\<lambda>k. (FT_OK, [0x00]))) (nreads idle_state + j)"
    by (simp add: scripted_device_replies)
  moreover have "[0x00 :: byte] \<noteq> []" and "(0 :: int) < 4"
    by simp_all
  ultimately have
    "fst (i2c_transaction (scripted_device (\<lambda>k. (FT_OK, [0x00]))) 0x3C 4 [0x00] idle_state) = 0"
    "start_conditions (drop (length (sent idle_state))
       (sent (snd (i2c_transaction (scripted_device (\<lambda>k. (FT_OK, [0x00]))) 0x3C 4 [0x00] idle_state)))) = 2"
    "stop_conditions (drop (length (sent idle_state))
       (sent (snd (i2c_transaction (scripted_device (\<lambda>k. (FT_OK, [0x00]))) 0x3C 4 [0x00] idle_state)))) = 1"
    using write_then_read_two_starts_one_stop [OF idle_state_fields(1), of "[0x00]" 4
        "scripted_device (\<lambda>k. (FT_OK, [0x00]))" "0x3C"]
    by blast+
  then show ?thesis
    by (simp add: idle_state_fields)
qed

text \<open>
  C2 (the code departs from the claim). The claim has a read transaction report an I/O
  error when the read of the data bytes fails or brings nothing. \<^verbatim>\<open>read_bytes\<close> stores
  the status of that \<^verbatim>\<open>FT_Read\<close> in \<^verbatim>\<open>ftStatus\<close> and returns 0 without looking at it
  or at \<^verbatim>\<open>inputRead\<close> (\<^verbatim>\<open>i2c_send_bk\<close> checks both after its own read), and
  \<^verbatim>\<open>i2c_transaction\<close> drops the result of \<^verbatim>\<open>read_bytes\<close>. So a read-only transaction
  whose address is acknowledged and whose data read, the second read of the transaction,
  fails still returns 0, the success code.
\<close>

theorem failed_data_read_returns_success:
  assumes "outputBuffer s = []" and "0 < nread" and "ack_reply dev (nreads s)"
    and "io_error_reply dev (Suc (nreads s))"
  shows "fst (i2c_transaction dev slave_addr nread [] s) = 0 \<and>
         nreads (snd (i2c_transaction dev slave_addr nread [] s)) = Suc (Suc (nreads s))"
proof -
  obtain r2 s2 where r: "read_block dev slave_addr nread s = (r2, s2)"
    by (cases "read_block dev slave_addr nread s")
  from read_block_ack [OF assms(1,2,3), of slave_addr]
  have f: "r2 = None" "outputBuffer s2 = []" "nreads s2 = Suc (Suc (nreads s))"
    by (simp_all add: r)
  have t: "i2c_transaction dev slave_addr nread [] s = (0, execute' dev (i2c_stop_bk s2))"
    using assms(2) by (simp add: i2c_transaction_def write_block_def r f)
  show ?thesis
    using stop_execute_fields [OF f(2), of dev] by (simp add: t f)
qed

theorem failed_data_read_returns_success_witness:
  "fst (i2c_transaction failing_read_device 0x3C 1 [] idle_state) = 0 \<and>
   nreads (snd (i2c_transaction failing_read_device 0x3C 1 [] idle_state)) = 2"
proof -
  have "ack_reply failing_read_device (nreads idle_state)"
    and "io_error_reply failing_read_device (Suc (nreads idle_state))"
    by (simp_all add: failing_read_device_def scripted_device_def ack_reply_def io_error_reply_def
        idle_state_fields FT_OK_def)
  from failed_data_read_returns_success [OF idle_state_fields(1) _ this, where nread = 1
      and slave_addr = "0x3C"]
  show ?thesis
    by (simp add: idle_state_fields)
qed

subsection \<open>The bus scan\<close>

text \<open>
  C3 (corrected). The bus scan of \<^verbatim>\<open>main\<close> probes every address from \<open>0x00\<close> to
  \<open>0x7E\<close> (the loop runs while \<^verbatim>\<open>i < 0x7f\<close>), in this order and each once: a start
  condition and the READ address byte in one write, the SDA write of \<^verbatim>\<open>i2c_send_bk\<close>
  when the address is acknowledged, and the stop condition, with one read for the
  acknowledge bit and no data phase. It reports exactly the probed addresses whose read
  brought an acknowledge. It makes 127 reads; the probe of \<open>0x7F\<close> is not written and
  \<open>0x7F\<close> is not reported.
\<close>

theorem bus_scan_probes_0x00_to_0x7E:
  assumes "outputBuffer s = []"
  shows "nreads (main_i2c_scan dev 0 s) = nreads s + 127 \<and>
         sent (main_i2c_scan dev 0 s) =
           sent s @ concat (map (\<lambda>k. [start_seq @ send_cmd (word_of_int (READ k))] @
                                      (if ack_reply dev (nreads s + nat k)
                                       then [set_bits_cmd SDA_OUT] else []) @ [stop_seq]) [0..0x7e]) \<and>
         reported (main_i2c_scan dev 0 s) =
           reported s @ map word_of_int (filter (\<lambda>k. ack_reply dev (nreads s + nat k)) [0..0x7e]) \<and>
         start_seq @ send_cmd (word_of_int (READ 0x7f)) \<notin>
           set (drop (length (sent s)) (sent (main_i2c_scan dev 0 s))) \<and>
         0x7f \<notin> set (drop (length (reported s)) (reported (main_i2c_scan dev 0 s)))"
proof -
  have e: "nreads (main_i2c_scan dev 0 s) = nreads s + 127"
    "sent (main_i2c_scan dev 0 s) =
           sent s @ concat (map (\<lambda>k. [start_seq @ send_cmd (word_of_int (READ k))] @
                                      (if ack_reply dev (nreads s + nat k)
                                       then [set_bits_cmd SDA_OUT] else []) @ [stop_seq]) [0..0x7e])"
    "reported (main_i2c_scan dev 0 s) =
           reported s @ map word_of_int (filter (\<lambda>k. ack_reply dev (nreads s + nat k)) [0..0x7e])"
    using main_i2c_scan_effect [OF assms, of 0 dev] by simp_all
  have "start_seq @ send_cmd (word_of_int (READ 0x7f)) \<notin>
           set (drop (length (sent s)) (sent (main_i2c_scan dev 0 s)))"
    using probe_0x7F_not_written [of "\<lambda>k. ack_reply dev (nreads s + nat k)"] by (simp add: e(2))
  moreover have "0x7f \<notin> set (drop (length (reported s)) (reported (main_i2c_scan dev 0 s)))"
    using probe_byte_neq(2) by (auto simp add: e(3))
  ultimately show ?thesis
    using e by simp
qed

theorem bus_scan_probes_0x00_to_0x7E_witness:
  "nreads (main_i2c_scan one_slave_device 0 idle_state) = 127 \<and>
   reported (main_i2c_scan one_slave_device 0 idle_state) = [0x3C]"
proof -
  have "nreads (main_i2c_scan one_slave_device 0 idle_state) = nreads idle_state + 127"
    and "reported (main_i2c_scan one_slave_device 0 idle_state) =
          reported idle_state @ map word_of_int (filter (\<lambda>k.
            ack_reply one_slave_device (nreads idle_state + nat k)) [0..0x7e])"
    using bus_scan_probes_0x00_to_0x7E [OF idle_state_fields(1), of one_slave_device]
    by blast+
  then show ?thesis
    by (simp add: idle_state_def one_slave_device_replies filter_single)
qed

text \<open>
  The claim as it was stated has the scan reach \<open>0x7F\<close>. On a bus where every address
  acknowledges, the scan reports \<open>0x00\<close> to \<open>0x7E\<close> after 127 reads: \<open>0x7F\<close> is not
  among them and its probe is not among the writes.
\<close>

theorem bus_scan_misses_0x7F:
  "reported (main_i2c_scan (scripted_device (\<lambda>k. (FT_OK, [0x00]))) 0 idle_state) =
     map word_of_int [0..0x7e] \<and>
   0x7f \<notin> set (reported (main_i2c_scan (scripted_device (\<lambda>k. (FT_OK, [0x00]))) 0 idle_state)) \<and>
   start_seq @ send_cmd (word_of_int (READ 0x7f)) \<notin>
     set (sent (main_i2c_scan (scripted_device (\<lambda>k. (FT_OK, [0x00]))) 0 idle_state)) \<and>
   nreads (main_i2c_scan (scripted_device (\<lambda>k. (FT_OK, [0x00]))) 0 idle_state) = 127"
proof -
  let ?dev = "scripted_device (\<lambda>k. (FT_OK, [0x00]))"
  have e: "nreads (main_i2c_scan ?dev 0 idle_state) = 127"
    "sent (main_i2c_scan ?dev 0 idle_state) =
       concat (map (\<lambda>k. [start_seq @ send_cmd (word_of_int (READ k))] @
                          (if True then [set_bits_cmd SDA_OUT] else []) @ [stop_seq]) [0..0x7e])"
    "reported (main_i2c_scan ?dev 0 idle_state) = map word_of_int [0..0x7e]"
    using main_i2c_scan_effect [OF idle_state_fields(1), of 0 ?dev]
    by (simp_all add: idle_state_def scripted_device_replies)
  have "0x7f \<notin> set (reported (main_i2c_scan ?dev 0 idle_state))"
    using probe_byte_neq(2) by (auto simp add: e(3))
  moreover have "start_seq @ send_cmd (word_of_int (READ 0x7f)) \<notin>
     set (sent (main_i2c_scan ?dev 0 idle_state))"
    unfolding e(2) by (rule probe_0x7F_not_written [of "\<lambda>k. True"])
  ultimately show ?thesis
    using e(1,3) by simp
qed

end
